theory Spec2Isabelle
  imports Complex_Main "HOL-Library.Word" "HOL-Library.AList"
begin

section \<open>JavaScript values\<close>

text \<open>
  A JavaScript string is a sequence of UTF-16 code units. String literals of the
  source are written \<open>js ''...''\<close>.
\<close>

type_synonym jschar = "16 word"
type_synonym jsstring = "jschar list"

definition js :: "string \<Rightarrow> jsstring" where
  "js s = map of_char s"

text \<open>
  A JavaScript number is a finite value, NaN or an infinity. A finite value is the real
  that it denotes; \<open>+0\<close> and \<open>-0\<close> are the same value \<open>Fin 0\<close>. A number that
  is given may be any real, the doubles among them.
\<close>

datatype jsnum = Fin real | NaN | PosInf | NegInf

text \<open>
  The result of \<open>a - b\<close>, of \<open>a * b\<close> and of reading a decimal numeral is the
  exact result rounded to the nearest double (IEEE 754 binary64, ties to even). A double
  is a multiple of the unit in the last place of its binade: of 2 to the power
  \<open>e - 52\<close> for a value between 2 to the power \<open>e\<close> and 2 to the power
  \<open>e + 1\<close>, and of 2 to the power \<open>- 1074\<close> for a value below 2 to the power
  \<open>- 1022\<close>. A result that rounds to 2 to the power 1024 or beyond is an infinity.
\<close>

definition binade :: "real \<Rightarrow> int" where
  "binade x = \<lfloor>log 2 \<bar>x\<bar>\<rfloor>"

definition ulp :: "real \<Rightarrow> real" where
  "ulp x = 2 powr of_int (max (binade x) (- 1022) - 52)"

definition round_even :: "real \<Rightarrow> int" where
  "round_even q =
     (let f = \<lfloor>q\<rfloor> in
      if q - of_int f < 1 / 2 then f
      else if q - of_int f > 1 / 2 then f + 1
      else if even f then f else f + 1)"

definition nearest_double :: "real \<Rightarrow> jsnum" where
  "nearest_double x =
     (if x = 0 then Fin 0
      else let y = of_int (round_even (x / ulp x)) * ulp x in
           if \<bar>y\<bar> \<ge> 2 ^ 1024 then (if x < 0 then NegInf else PosInf) else Fin y)"

text \<open>A real is a double when rounding leaves it as it is.\<close>

definition representable :: "real \<Rightarrow> bool" where
  "representable x \<longleftrightarrow> nearest_double x = Fin x"

text \<open>\<open>x - y\<close> and \<open>x * y\<close> on numbers.\<close>

fun js_minus :: "jsnum \<Rightarrow> jsnum \<Rightarrow> jsnum" where
  "js_minus (Fin a) (Fin b) = nearest_double (a - b)"
| "js_minus NaN y = NaN"
| "js_minus x NaN = NaN"
| "js_minus PosInf PosInf = NaN"
| "js_minus NegInf NegInf = NaN"
| "js_minus PosInf y = PosInf"
| "js_minus NegInf y = NegInf"
| "js_minus (Fin a) PosInf = NegInf"
| "js_minus (Fin a) NegInf = PosInf"

fun js_times :: "jsnum \<Rightarrow> jsnum \<Rightarrow> jsnum" where
  "js_times (Fin a) (Fin b) = nearest_double (a * b)"
| "js_times NaN y = NaN"
| "js_times x NaN = NaN"
| "js_times PosInf (Fin b) = (if b = 0 then NaN else if b > 0 then PosInf else NegInf)"
| "js_times NegInf (Fin b) = (if b = 0 then NaN else if b > 0 then NegInf else PosInf)"
| "js_times (Fin a) PosInf = (if a = 0 then NaN else if a > 0 then PosInf else NegInf)"
| "js_times (Fin a) NegInf = (if a = 0 then NaN else if a > 0 then NegInf else PosInf)"
| "js_times PosInf PosInf = PosInf"
| "js_times NegInf NegInf = PosInf"
| "js_times PosInf NegInf = NegInf"
| "js_times NegInf PosInf = NegInf"

datatype jsprim = PUndefined | PNull | PBool bool | PNum jsnum | PStr jsstring

text \<open>Truthiness, as \<open>if (x)\<close>, \<open>x && y\<close> and \<open>x || y\<close> test it.\<close>

fun truthy :: "jsprim \<Rightarrow> bool" where
  "truthy PUndefined = False"
| "truthy PNull = False"
| "truthy (PBool b) = b"
| "truthy (PNum (Fin r)) = (r \<noteq> 0)"
| "truthy (PNum NaN) = False"
| "truthy (PNum PosInf) = True"
| "truthy (PNum NegInf) = True"
| "truthy (PStr s) = (s \<noteq> [])"

section \<open>Test context (class TestContext, src/utils/testHelpers.js)\<close>

text \<open>
  Arrays are objects with identity: the store holds every array that has been
  allocated, an address is an index into the store, and \<open>[]\<close> or \<open>[...xs]\<close>
  allocates a new array. Product ids are primitive values (the source documents them as
  numbers), so \<open>Array.prototype.includes\<close> (SameValueZero) is equality of values.
\<close>

type_synonym addr = nat
type_synonym store = "jsprim list list"

definition alloc :: "jsprim list \<Rightarrow> store \<Rightarrow> addr \<times> store" where
  "alloc xs h = (length h, h @ [xs])"

record TestContext =
  createdProducts :: addr
  testStartTime :: "real option"
  testEndTime :: "real option"

definition array_includes :: "jsprim list \<Rightarrow> jsprim \<Rightarrow> bool" where
  "array_includes xs x = (x \<in> set xs)"

definition push :: "addr \<Rightarrow> jsprim \<Rightarrow> store \<Rightarrow> store" where
  "push a x h = h[a := (h ! a) @ [x]]"

definition TestContext_constructor :: "store \<Rightarrow> TestContext \<times> store" where
  "TestContext_constructor h =
     (case alloc [] h of (a, h') \<Rightarrow>
        (\<lparr>createdProducts = a, testStartTime = None, testEndTime = None\<rparr>, h'))"

definition addCreatedProduct :: "jsprim \<Rightarrow> TestContext \<Rightarrow> store \<Rightarrow> store" where
  "addCreatedProduct productId this h =
     (if truthy productId \<and> \<not> array_includes (h ! createdProducts this) productId
      then push (createdProducts this) productId h
      else h)"

definition getCreatedProducts :: "TestContext \<Rightarrow> store \<Rightarrow> addr \<times> store" where
  "getCreatedProducts this h = alloc (h ! createdProducts this) h"

definition clearCreatedProducts :: "TestContext \<Rightarrow> store \<Rightarrow> TestContext \<times> store" where
  "clearCreatedProducts this h =
     (case alloc [] h of (a, h') \<Rightarrow> (this\<lparr>createdProducts := a\<rparr>, h'))"

definition startTimer :: "real \<Rightarrow> TestContext \<Rightarrow> TestContext" where
  "startTimer now this = this\<lparr>testStartTime := Some now\<rparr>"

definition stopTimer :: "real \<Rightarrow> TestContext \<Rightarrow> real \<times> TestContext" where
  "stopTimer now this =
     (now - (case testStartTime this of None \<Rightarrow> 0 | Some t \<Rightarrow> t),
      this\<lparr>testEndTime := Some now\<rparr>)"

text \<open>
  A client of the context: it calls the methods, keeps the arrays that
  \<open>getCreatedProducts\<close> returned to it, and may overwrite any of those arrays with
  any contents (\<open>MutateResult k ys\<close> rewrites the \<open>k\<close>-th array it was given; with no
  such array there is nothing to rewrite).
\<close>

datatype ctx_op =
    AddCreatedProduct jsprim
  | ClearCreatedProducts
  | GetCreatedProducts
  | StartTimer real
  | StopTimer real
  | MutateResult nat "jsprim list"

record world =
  heap :: store
  ctx :: TestContext
  returned :: "addr list"

definition world0 :: world where
  "world0 = (case TestContext_constructor [] of (c, h) \<Rightarrow>
     \<lparr>heap = h, ctx = c, returned = []\<rparr>)"

fun step :: "ctx_op \<Rightarrow> world \<Rightarrow> world" where
  "step (AddCreatedProduct x) w = w\<lparr>heap := addCreatedProduct x (ctx w) (heap w)\<rparr>"
| "step ClearCreatedProducts w =
     (case clearCreatedProducts (ctx w) (heap w) of (c, h) \<Rightarrow> w\<lparr>heap := h, ctx := c\<rparr>)"
| "step GetCreatedProducts w =
     (case getCreatedProducts (ctx w) (heap w) of (a, h) \<Rightarrow>
        w\<lparr>heap := h, returned := returned w @ [a]\<rparr>)"
| "step (StartTimer now) w = w\<lparr>ctx := startTimer now (ctx w)\<rparr>"
| "step (StopTimer now) w = w\<lparr>ctx := snd (stopTimer now (ctx w))\<rparr>"
| "step (MutateResult k ys) w =
     (if k < length (returned w) then w\<lparr>heap := (heap w)[returned w ! k := ys]\<rparr> else w)"

definition run :: "ctx_op list \<Rightarrow> world" where
  "run ops = fold step ops world0"

definition created :: "world \<Rightarrow> jsprim list" where
  "created w = heap w ! createdProducts (ctx w)"

text \<open>The invariant that makes the store well formed and the tracked list clean.\<close>

definition world_ok :: "world \<Rightarrow> bool" where
  "world_ok w \<longleftrightarrow>
     createdProducts (ctx w) < length (heap w) \<and>
     (\<forall>a \<in> set (returned w). a < length (heap w) \<and> a \<noteq> createdProducts (ctx w)) \<and>
     distinct (created w) \<and> (\<forall>x \<in> set (created w). truthy x)"

section \<open>Objects\<close>

text \<open>
  Values that are passed by content (request payloads, response bodies): a primitive,
  an object as the list of its own properties in creation order, or an array.
\<close>

datatype jsval = JPrim jsprim | JObj "(jsstring \<times> jsval) list" | JArr "jsval list"

type_synonym jsobj = "(jsstring \<times> jsval) list"

abbreviation JUndefined :: jsval where "JUndefined \<equiv> JPrim PUndefined"
abbreviation JNull :: jsval where "JNull \<equiv> JPrim PNull"
abbreviation JNumber :: "real \<Rightarrow> jsval" where "JNumber r \<equiv> JPrim (PNum (Fin r))"
abbreviation JString :: "jsstring \<Rightarrow> jsval" where "JString s \<equiv> JPrim (PStr s)"

fun truthyV :: "jsval \<Rightarrow> bool" where
  "truthyV (JPrim p) = truthy p"
| "truthyV (JObj ps) = True"
| "truthyV (JArr vs) = True"

text \<open>\<open>obj.k\<close>: the property's value, \<open>undefined\<close> when the object has no such property.\<close>

definition get :: "jsobj \<Rightarrow> jsstring \<Rightarrow> jsval" where
  "get obj k = (case map_of obj k of None \<Rightarrow> JUndefined | Some v \<Rightarrow> v)"

text \<open>
  \<open>{...base, ...overrides}\<close>: each property of \<open>overrides\<close> is assigned in turn; an
  assignment to an existing key replaces its value in place, a new key is appended.
\<close>

definition spread :: "jsobj \<Rightarrow> jsobj \<Rightarrow> jsobj" where
  "spread overrides base = fold (\<lambda>(k, v). AList.update k v) overrides base"

section \<open>Test data generator (utils/testDataGenerator.js, in src/utils/index.js)\<close>

text \<open>
  \<open>Math.random()\<close> is the only source of randomness: \<open>rnd i\<close> is the result of its
  \<open>i\<close>-th call, and every generator takes the number of calls made so far and returns
  the number after it.
\<close>

type_synonym random = "nat \<Rightarrow> real"

definition chars :: jsstring where
  "chars = js ''ABCDEFGHIJKLMNOPQRSTUVWXYZabcdefghijklmnopqrstuvwxyz0123456789''"

definition charAt :: "jsstring \<Rightarrow> int \<Rightarrow> jsstring" where
  "charAt s i = (if 0 \<le> i \<and> i < int (length s) then [s ! nat i] else [])"

function generateRandomString_loop :: "nat \<Rightarrow> nat \<Rightarrow> jsstring \<Rightarrow> random \<Rightarrow> nat \<Rightarrow> jsstring" where
  "generateRandomString_loop i len result rnd n =
     (if i < len
      then generateRandomString_loop (i + 1) len
             (result @ charAt chars \<lfloor>rnd (n + i) * real (length chars)\<rfloor>) rnd n
      else result)"
  by pat_completeness auto
termination
  by (relation "measure (\<lambda>(i, len, result, rnd, n). len - i)") auto

declare generateRandomString_loop.simps [simp del]

definition generateRandomString :: "nat \<Rightarrow> random \<Rightarrow> nat \<Rightarrow> jsstring \<times> nat" where
  "generateRandomString len rnd n = (generateRandomString_loop 0 len [] rnd n, n + len)"

text \<open>\<open>parseFloat(num.toFixed(decimals))\<close>: the nearest multiple of \<open>10^-decimals\<close>, a tie
  going to the larger magnitude.\<close>

definition toFixed :: "real \<Rightarrow> nat \<Rightarrow> real" where
  "toFixed x d =
     (if x < 0 then - (of_int \<lfloor>- x * 10 ^ d + 1 / 2\<rfloor> / 10 ^ d)
      else of_int \<lfloor>x * 10 ^ d + 1 / 2\<rfloor> / 10 ^ d)"

definition generateRandomNumber :: "real \<Rightarrow> real \<Rightarrow> nat \<Rightarrow> random \<Rightarrow> nat \<Rightarrow> real \<times> nat" where
  "generateRandomNumber lo hi decimals rnd n =
     (let num = rnd n * (hi - lo) + lo in (toFixed num decimals, n + 1))"

definition categories :: "jsstring list" where
  "categories = [js ''electronics'', js ''jewelery'', js ''men's clothing'', js ''women's clothing'']"

definition generateProductData :: "jsobj \<Rightarrow> random \<Rightarrow> nat \<Rightarrow> jsobj \<times> nat" where
  "generateProductData overrides rnd n0 =
     (let (title, n1) =
            (if truthyV (get overrides (js ''title'')) then (get overrides (js ''title''), n0)
             else case generateRandomString 5 rnd n0 of
                    (s, n) \<Rightarrow> (JString (js ''Test Product '' @ s), n));
          (price, n2) =
            (if get overrides (js ''price'') \<noteq> JUndefined then (get overrides (js ''price''), n1)
             else case generateRandomNumber 1 999 2 rnd n1 of (x, n) \<Rightarrow> (JNumber x, n));
          (description, n3) =
            (if truthyV (get overrides (js ''description''))
             then (get overrides (js ''description''), n2)
             else case generateRandomString 20 rnd n2 of
                    (s, n) \<Rightarrow> (JString (js ''Test product description '' @ s), n));
          image =
            (if truthyV (get overrides (js ''image'')) then get overrides (js ''image'')
             else JString (js ''https://fakestoreapi.com/img/test.jpg''));
          (category, n4) =
            (if truthyV (get overrides (js ''category'')) then (get overrides (js ''category''), n3)
             else (JString (categories ! nat \<lfloor>rnd n3 * real (length categories)\<rfloor>), n3 + 1))
      in (spread overrides
            [(js ''title'', title), (js ''price'', price), (js ''description'', description),
             (js ''image'', image), (js ''category'', category)],
          n4))"

definition getValidProductId :: "random \<Rightarrow> nat \<Rightarrow> int \<times> nat" where
  "getValidProductId rnd n = (\<lfloor>rnd n * 20\<rfloor> + 1, n + 1)"

definition getBoundaryProductIds :: jsobj where
  "getBoundaryProductIds = [(js ''min'', JNumber 1), (js ''max'', JNumber 20)]"

definition getInvalidProductId :: "random \<Rightarrow> nat \<Rightarrow> int \<times> nat" where
  "getInvalidProductId rnd n = (\<lfloor>rnd n * 9000\<rfloor> + 1000, n + 1)"

definition getNonNumericProductId :: "random \<Rightarrow> nat \<Rightarrow> jsstring \<times> nat" where
  "getNonNumericProductId rnd n = generateRandomString 5 rnd n"

text \<open>A draw of \<open>Math.random()\<close> lies in \<open>[0, 1)\<close>.\<close>

definition draws_ok :: "random \<Rightarrow> bool" where
  "draws_ok rnd \<longleftrightarrow> (\<forall>i. 0 \<le> rnd i \<and> rnd i < 1)"

definition isDigit :: "jschar \<Rightarrow> bool" where
  "isDigit c \<longleftrightarrow> 0x30 \<le> c \<and> c \<le> 0x39"

text \<open>A numeric id: a non-empty string of decimal digits, as in \<open>/products/22222\<close>.\<close>

definition isNumericString :: "jsstring \<Rightarrow> bool" where
  "isNumericString s \<longleftrightarrow> s \<noteq> [] \<and> list_all isDigit s"

section \<open>Assertion helpers (src/utils/assertions.js)\<close>

text \<open>
  An \<open>expect(...)\<close> that fails throws; a property read from \<open>null\<close> or
  \<open>undefined\<close>, or a call of something that is not a function, throws a TypeError;
  \<open>assertSchema\<close> throws an error made from the details of a failed validation.
\<close>

datatype js_error =
    JestAssertionError
  | TypeError
  | SchemaValidationFailed "(jsstring list \<times> string) list"

fun typeof :: "jsval \<Rightarrow> jsstring" where
  "typeof (JPrim PUndefined) = js ''undefined''"
| "typeof (JPrim PNull) = js ''object''"
| "typeof (JPrim (PBool b)) = js ''boolean''"
| "typeof (JPrim (PNum x)) = js ''number''"
| "typeof (JPrim (PStr s)) = js ''string''"
| "typeof (JObj ps) = js ''object''"
| "typeof (JArr vs) = js ''object''"

text \<open>\<open>expect(actual).toBe(expected)\<close> and its negation, on primitive values.\<close>

definition expect_toBe :: "jsval \<Rightarrow> jsval \<Rightarrow> js_error + unit" where
  "expect_toBe actual expected = (if actual = expected then Inr () else Inl JestAssertionError)"

definition expect_not_toBe :: "jsval \<Rightarrow> jsval \<Rightarrow> js_error + unit" where
  "expect_not_toBe actual expected = (if actual = expected then Inl JestAssertionError else Inr ())"

text \<open>\<open>expect(actual).toBeGreaterThan(n)\<close>: the matcher itself throws when \<open>actual\<close> is
  not a number.\<close>

fun expect_toBeGreaterThan :: "jsval \<Rightarrow> real \<Rightarrow> js_error + unit" where
  "expect_toBeGreaterThan (JPrim (PNum (Fin x))) n = (if x > n then Inr () else Inl JestAssertionError)"
| "expect_toBeGreaterThan (JPrim (PNum PosInf)) n = Inr ()"
| "expect_toBeGreaterThan v n = Inl JestAssertionError"

text \<open>\<open>str.length\<close> and \<open>str.trim()\<close> for any value \<open>str\<close>.\<close>

fun length_property :: "jsval \<Rightarrow> js_error + jsval" where
  "length_property (JPrim PUndefined) = Inl TypeError"
| "length_property (JPrim PNull) = Inl TypeError"
| "length_property (JPrim (PStr s)) = Inr (JNumber (real (length s)))"
| "length_property (JArr vs) = Inr (JNumber (real (length vs)))"
| "length_property (JObj ps) = Inr (get ps (js ''length''))"
| "length_property v = Inr JUndefined"

text \<open>White space and line terminators, the code units that \<open>trim\<close> removes.\<close>

definition isWhiteSpace :: "jschar \<Rightarrow> bool" where
  "isWhiteSpace c \<longleftrightarrow>
     c \<in> {0x09, 0x0A, 0x0B, 0x0C, 0x0D, 0x20, 0xA0, 0x1680, 0x2028, 0x2029, 0x202F, 0x205F,
           0x3000, 0xFEFF} \<or> (0x2000 \<le> c \<and> c \<le> 0x200A)"

definition trim :: "jsstring \<Rightarrow> jsstring" where
  "trim s = rev (dropWhile isWhiteSpace (rev (dropWhile isWhiteSpace s)))"

fun trim_method :: "jsval \<Rightarrow> js_error + jsval" where
  "trim_method (JPrim (PStr s)) = Inr (JString (trim s))"
| "trim_method v = Inl TypeError"

definition assertStringNotEmpty :: "jsval \<Rightarrow> js_error + unit" where
  "assertStringNotEmpty str =
     (case expect_toBe (JString (typeof str)) (JString (js ''string'')) of
        Inl e \<Rightarrow> Inl e
      | Inr _ \<Rightarrow>
     (case length_property str of
        Inl e \<Rightarrow> Inl e
      | Inr len \<Rightarrow>
     (case expect_toBeGreaterThan len 0 of
        Inl e \<Rightarrow> Inl e
      | Inr _ \<Rightarrow>
     (case trim_method str of
        Inl e \<Rightarrow> Inl e
      | Inr t \<Rightarrow> expect_not_toBe t (JString [])))))"

section \<open>Retry with exponential backoff (src/utils/testHelpers.js)\<close>

text \<open>
  \<open>fn\<close> takes no argument, so what it does is fixed by how often it has been called:
  \<open>fn k\<close> is the outcome of its \<open>k\<close>-th call, \<open>Inl\<close> an error it throws (or a
  rejected promise), \<open>Inr\<close> the value it returns. The state is the number of calls made
  so far and the list of delays that \<open>wait\<close> was asked for. \<open>retries\<close> and
  \<open>delay\<close> are numbers, \<open>retries - 1\<close> and \<open>delay * 2\<close> are computed in
  doubles. A recursion that never ends is the value \<open>None\<close>.
\<close>

partial_function (option) retryWithBackoff ::
  "(nat \<Rightarrow> 'e + 'a) \<Rightarrow> jsnum \<Rightarrow> jsnum \<Rightarrow> nat \<times> jsnum list
     \<Rightarrow> (('e + 'a) \<times> nat \<times> jsnum list) option"
where
  "retryWithBackoff fn retries delay st =
     (case st of (calls, waits) \<Rightarrow>
        (case fn calls of
           Inr v \<Rightarrow> Some (Inr v, calls + 1, waits)
         | Inl error \<Rightarrow>
             if retries = Fin 0 then Some (Inl error, calls + 1, waits)
             else retryWithBackoff fn (js_minus retries (Fin 1)) (js_times delay (Fin 2))
                    (calls + 1, waits @ [delay])))"

text \<open>The delay of the wait after the \<open>i\<close>-th failed call: \<open>delay\<close> doubled
  \<open>i\<close> times, each time as the helper doubles it.\<close>

primrec backoff :: "jsnum \<Rightarrow> nat \<Rightarrow> jsnum" where
  "backoff d 0 = d"
| "backoff d (Suc i) = backoff (js_times d (Fin 2)) i"

section \<open>Environment configuration (config/environment.js, in src/unnamed/part_002) and API client (src/utils/apiClient.js)\<close>

record profile =
  baseURL :: jsstring
  timeout :: nat
  retryAttempts :: nat
  logLevel :: jsstring

definition environments :: "(jsstring \<times> profile) list" where
  "environments =
     [(js ''development'',
        \<lparr>baseURL = js ''https://fakestoreapi.com'', timeout = 10000, retryAttempts = 3,
         logLevel = js ''debug''\<rparr>),
      (js ''test'',
        \<lparr>baseURL = js ''https://fakestoreapi.com'', timeout = 10000, retryAttempts = 3,
         logLevel = js ''debug''\<rparr>),
      (js ''staging'',
        \<lparr>baseURL = js ''https://fakestoreapi.com'', timeout = 8000, retryAttempts = 2,
         logLevel = js ''info''\<rparr>),
      (js ''production'',
        \<lparr>baseURL = js ''https://fakestoreapi.com'', timeout = 5000, retryAttempts = 1,
         logLevel = js ''error''\<rparr>)]"

text \<open>
  \<open>environments\<close> is an object literal, so a lookup that finds no own property goes on
  to \<open>Object.prototype\<close>, whose properties are named below (they are functions,
  \<open>__proto__\<close> the prototype object itself).
\<close>

definition objectPrototypeKeys :: "jsstring list" where
  "objectPrototypeKeys =
     [js ''constructor'', js ''__defineGetter__'', js ''__defineSetter__'',
      js ''hasOwnProperty'', js ''__lookupGetter__'', js ''__lookupSetter__'',
      js ''isPrototypeOf'', js ''propertyIsEnumerable'', js ''toString'', js ''valueOf'',
      js ''__proto__'', js ''toLocaleString'']"

datatype config_value = Profile profile | Inherited jsstring | ConfigUndefined

text \<open>\<open>process.env.NODE_ENV\<close> is a string, or \<open>undefined\<close> (\<open>None\<close>) when not set.\<close>

definition currentEnv :: "jsstring option \<Rightarrow> jsstring" where
  "currentEnv node_env =
     (case node_env of
        None \<Rightarrow> js ''development''
      | Some s \<Rightarrow> if s \<noteq> [] then s else js ''development'')"

definition config :: "jsstring option \<Rightarrow> config_value" where
  "config node_env =
     (case map_of environments (currentEnv node_env) of
        Some p \<Rightarrow> Profile p
      | None \<Rightarrow>
          if currentEnv node_env \<in> set objectPrototypeKeys
          then Inherited (currentEnv node_env)
          else ConfigUndefined)"

text \<open>\<open>config.baseURL\<close> and \<open>config.timeout\<close>: reading a property of \<open>undefined\<close>
  throws; an inherited function or object has neither property.\<close>

fun config_baseURL :: "config_value \<Rightarrow> js_error + jsstring option" where
  "config_baseURL (Profile p) = Inr (Some (baseURL p))"
| "config_baseURL (Inherited k) = Inr None"
| "config_baseURL ConfigUndefined = Inl TypeError"

fun config_timeout :: "config_value \<Rightarrow> js_error + nat option" where
  "config_timeout (Profile p) = Inr (Some (timeout p))"
| "config_timeout (Inherited k) = Inr None"
| "config_timeout ConfigUndefined = Inl TypeError"

record ApiClient =
  this_baseURL :: "jsstring option"

definition ApiClient_constructor :: "config_value \<Rightarrow> js_error + ApiClient" where
  "ApiClient_constructor cfg =
     (case config_baseURL cfg of
        Inl e \<Rightarrow> Inl e
      | Inr b \<Rightarrow> Inr \<lparr>this_baseURL = b\<rparr>)"

text \<open>A template literal writes \<open>undefined\<close> as the text \<open>undefined\<close>.\<close>

definition buildUrl :: "ApiClient \<Rightarrow> jsstring \<Rightarrow> jsstring" where
  "buildUrl this endpoint =
     (case this_baseURL this of None \<Rightarrow> js ''undefined'' | Some b \<Rightarrow> b) @ endpoint"

text \<open>What a client method hands to the HTTP library: the request it describes.\<close>

record request =
  http_method :: string
  url :: jsstring
  body :: "jsval option"
  request_timeout :: "nat option"

definition send :: "string \<Rightarrow> jsval option \<Rightarrow> config_value \<Rightarrow> ApiClient \<Rightarrow> jsstring
    \<Rightarrow> js_error + request" where
  "send m b cfg this endpoint =
     (case config_timeout cfg of
        Inl e \<Rightarrow> Inl e
      | Inr t \<Rightarrow>
          Inr \<lparr>http_method = m, url = buildUrl this endpoint, body = b, request_timeout = t\<rparr>)"

definition client_get :: "config_value \<Rightarrow> ApiClient \<Rightarrow> jsstring \<Rightarrow> js_error + request" where
  "client_get = send ''GET'' None"

definition client_post :: "jsval \<Rightarrow> config_value \<Rightarrow> ApiClient \<Rightarrow> jsstring \<Rightarrow> js_error + request" where
  "client_post b = send ''POST'' (Some b)"

definition client_put :: "jsval \<Rightarrow> config_value \<Rightarrow> ApiClient \<Rightarrow> jsstring \<Rightarrow> js_error + request" where
  "client_put b = send ''PUT'' (Some b)"

definition client_delete :: "config_value \<Rightarrow> ApiClient \<Rightarrow> jsstring \<Rightarrow> js_error + request" where
  "client_delete = send ''DELETE'' None"

definition client_patch :: "jsval \<Rightarrow> config_value \<Rightarrow> ApiClient \<Rightarrow> jsstring \<Rightarrow> js_error + request" where
  "client_patch b = send ''PATCH'' (Some b)"

definition getAllProducts :: "config_value \<Rightarrow> ApiClient \<Rightarrow> js_error + request" where
  "getAllProducts cfg this = client_get cfg this (js ''/products'')"

definition createProduct :: "jsval \<Rightarrow> config_value \<Rightarrow> ApiClient \<Rightarrow> js_error + request" where
  "createProduct productData cfg this = client_post productData cfg this (js ''/products'')"

text \<open>
  The module exports \<open>new ApiClient()\<close>, built when the module is loaded. A test that uses
  the client loads the module and then calls a method \<open>op\<close> of the exported object.
\<close>

definition apiClient_module :: "jsstring option \<Rightarrow> js_error + ApiClient" where
  "apiClient_module node_env = ApiClient_constructor (config node_env)"

definition client_call ::
  "jsstring option \<Rightarrow> (config_value \<Rightarrow> ApiClient \<Rightarrow> js_error + 'r) \<Rightarrow> js_error + 'r" where
  "client_call node_env op =
     (case apiClient_module node_env of
        Inl e \<Rightarrow> Inl e
      | Inr this \<Rightarrow> op (config node_env) this)"

section \<open>Schema validator (utils/schemaValidator.js, in src/utils/testHelpers.js)\<close>

subsection \<open>The validation library\<close>

text \<open>
  The schemas of the repository are values of the joi library, and \<open>validateSchema\<close>
  calls the library's \<open>schema.validate\<close>. The definitions of this subsection restate
  what the library (version 17) does for the schema kinds and rules that the repository
  uses: number schemas with \<open>min\<close>, \<open>max\<close>, \<open>integer\<close> and \<open>positive\<close>, string
  schemas with \<open>uri\<close>, object schemas with known keys, \<open>required\<close>, and the
  preferences \<open>abortEarly\<close>, \<open>convert\<close> and \<open>allowUnknown\<close>. A schema lists its
  rules in the order of the calls that added them.
\<close>

datatype number_rule = Min real | Max real | Integer | Positive

datatype string_rule = Uri

datatype presence = Optional | Required

datatype schema =
    JoiNumber "number_rule list" presence
  | JoiString "string_rule list" presence
  | JoiObject "(jsstring \<times> schema) list" presence

record prefs =
  abortEarly :: bool
  convert :: bool
  allowUnknown :: bool

definition defaults :: prefs where
  "defaults = \<lparr>abortEarly = True, convert = True, allowUnknown = False\<rparr>"

text \<open>One entry of \<open>error.details\<close>: the path of the offending value and the error code.\<close>

type_synonym detail = "jsstring list \<times> string"

text \<open>
  Conversion of a string to a number (preference \<open>convert\<close>): the string must match
  \<open>/^\s*[+-]?(?:(?:\d+(?:\.\d*)?)|(?:\.\d+))(?:e([+-]?\d+))?\s*$/i\<close>;
  \<open>parse_number\<close> is the exact value of the decimal numeral, of which
  \<open>parseFloat\<close> returns the nearest double.
\<close>

definition digits_value :: "jsstring \<Rightarrow> nat" where
  "digits_value ds = fold (\<lambda>c n. 10 * n + unat (c - 0x30)) ds 0"

definition take_sign :: "jsstring \<Rightarrow> bool \<times> jsstring" where
  "take_sign s =
     (case s of
        [] \<Rightarrow> (False, [])
      | c # cs \<Rightarrow> if c = 0x2D then (True, cs) else if c = 0x2B then (False, cs) else (False, s))"

definition parse_exponent :: "jsstring \<Rightarrow> int option" where
  "parse_exponent s =
     (case take_sign s of
        (neg, ds) \<Rightarrow>
          if ds \<noteq> [] \<and> list_all isDigit ds
          then Some (if neg then - int (digits_value ds) else int (digits_value ds))
          else None)"

definition parse_number :: "jsstring \<Rightarrow> real option" where
  "parse_number s =
     (case take_sign (trim s) of
        (neg, r0) \<Rightarrow>
          let d1 = takeWhile isDigit r0;
              r1 = dropWhile isDigit r0;
              dot = (r1 \<noteq> [] \<and> hd r1 = 0x2E);
              d2 = (if dot then takeWhile isDigit (tl r1) else []);
              r2 = (if dot then dropWhile isDigit (tl r1) else r1);
              mantissa = real (digits_value d1) + real (digits_value d2) / 10 ^ length d2;
              expo = (if r2 = [] then Some 0
                      else if hd r2 = 0x65 \<or> hd r2 = 0x45 then parse_exponent (tl r2)
                      else None)
          in if d1 = [] \<and> d2 = [] then None
             else (case expo of
                     None \<Rightarrow> None
                   | Some e \<Rightarrow>
                       Some ((if neg then - 1 else 1) * mantissa * 10 powi e)))"

definition MAX_SAFE_INTEGER :: real where
  "MAX_SAFE_INTEGER = 9007199254740991"

text \<open>The check of one rule on a number that has passed the type check.\<close>

fun number_rule_ok :: "number_rule \<Rightarrow> real \<Rightarrow> bool" where
  "number_rule_ok (Min limit) x = (x \<ge> limit)"
| "number_rule_ok (Max limit) x = (x \<le> limit)"
| "number_rule_ok Integer x = (of_int \<lfloor>x\<rfloor> = x)"
| "number_rule_ok Positive x = (x > 0)"

fun number_rule_code :: "number_rule \<Rightarrow> string" where
  "number_rule_code (Min limit) = ''number.min''"
| "number_rule_code (Max limit) = ''number.max''"
| "number_rule_code Integer = ''number.integer''"
| "number_rule_code Positive = ''number.positive''"

text \<open>
  The rules are tested in order. With \<open>abortEarly\<close> the first failure ends the
  validation; without it every failure is added to the errors.
\<close>

fun number_rules :: "prefs \<Rightarrow> number_rule list \<Rightarrow> jsstring list \<Rightarrow> real \<Rightarrow> detail list" where
  "number_rules p [] path x = []"
| "number_rules p (r # rs) path x =
     (if number_rule_ok r x then number_rules p rs path x
      else if abortEarly p then [(path, number_rule_code r)]
      else (path, number_rule_code r) # number_rules p rs path x)"

text \<open>
  Two tests of the library are parameters of the validation. \<open>isUri\<close> is the URI
  test of the string rule \<open>uri\<close> (RFC 3986). \<open>unsafeNumeral\<close> is the test that
  the conversion makes on a trimmed numeral after \<open>parseFloat\<close>: it compares the
  numeral with the decimal that the engine prints for the double
  (\<open>Number.prototype.toString\<close>) and refuses with \<open>number.unsafe\<close> a numeral that
  the double does not print back, as one with more digits than a double holds.
\<close>

record library =
  isUri :: "jsstring \<Rightarrow> bool"
  unsafeNumeral :: "jsstring \<Rightarrow> bool"

fun string_rule_ok :: "library \<Rightarrow> string_rule \<Rightarrow> jsstring \<Rightarrow> bool" where
  "string_rule_ok lib Uri s = isUri lib s"

fun string_rule_code :: "string_rule \<Rightarrow> string" where
  "string_rule_code Uri = ''string.uri''"

fun string_rules ::
  "library \<Rightarrow> prefs \<Rightarrow> string_rule list \<Rightarrow> jsstring list \<Rightarrow> jsstring \<Rightarrow> detail list" where
  "string_rules lib p [] path s = []"
| "string_rules lib p (r # rs) path s =
     (if string_rule_ok lib r s then string_rules lib p rs path s
      else if abortEarly p then [(path, string_rule_code r)]
      else (path, string_rule_code r) # string_rules lib p rs path s)"

text \<open>
  A number schema: conversion (an error of which ends the validation of this value),
  presence and type check (a failure of which ends it too), then the rules. The
  conversion returns the value and, for a numeral that the test refuses, the error code.
\<close>

definition number_coerce :: "library \<Rightarrow> prefs \<Rightarrow> jsval \<Rightarrow> jsval \<times> string option" where
  "number_coerce lib p v =
     (case v of
        JPrim (PStr s) \<Rightarrow>
          (if convert p then
             (case parse_number s of
                None \<Rightarrow> (v, None)
              | Some x \<Rightarrow>
                  (JPrim (PNum (nearest_double x)),
                   if unsafeNumeral lib (trim s) then Some ''number.unsafe'' else None))
           else (v, None))
      | _ \<Rightarrow> (v, None))"

text \<open>Presence and type check of a number: the errors that end the validation of this
  value (none for an absent optional value), or the number that the rules are tested on.\<close>

definition number_base :: "presence \<Rightarrow> jsstring list \<Rightarrow> jsval \<Rightarrow> detail list + real" where
  "number_base pres path v =
     (case v of
        JPrim PUndefined \<Rightarrow> Inl (if pres = Required then [(path, ''any.required'')] else [])
      | JPrim (PNum PosInf) \<Rightarrow> Inl [(path, ''number.infinity'')]
      | JPrim (PNum NegInf) \<Rightarrow> Inl [(path, ''number.infinity'')]
      | JPrim (PNum (Fin x)) \<Rightarrow>
          if x > MAX_SAFE_INTEGER \<or> x < - MAX_SAFE_INTEGER then Inl [(path, ''number.unsafe'')]
          else Inr x
      | _ \<Rightarrow> Inl [(path, ''number.base'')])"

definition validate_number ::
  "library \<Rightarrow> prefs \<Rightarrow> number_rule list \<Rightarrow> presence \<Rightarrow> jsstring list \<Rightarrow> jsval
     \<Rightarrow> jsval \<times> detail list" where
  "validate_number lib p rules pres path v0 =
     (case number_coerce lib p v0 of
        (v, Some code) \<Rightarrow> (v, [(path, code)])
      | (v, None) \<Rightarrow>
          (case number_base pres path v of
             Inl errors \<Rightarrow> (v, errors)
           | Inr x \<Rightarrow> (v, number_rules p rules path x)))"

definition string_base :: "presence \<Rightarrow> jsstring list \<Rightarrow> jsval \<Rightarrow> detail list + jsstring" where
  "string_base pres path v =
     (case v of
        JPrim PUndefined \<Rightarrow> Inl (if pres = Required then [(path, ''any.required'')] else [])
      | JPrim (PStr s) \<Rightarrow> if s = [] then Inl [(path, ''string.empty'')] else Inr s
      | _ \<Rightarrow> Inl [(path, ''string.base'')])"

definition validate_string ::
  "library \<Rightarrow> prefs \<Rightarrow> string_rule list \<Rightarrow> presence \<Rightarrow> jsstring list \<Rightarrow> jsval
     \<Rightarrow> jsval \<times> detail list" where
  "validate_string lib p rules pres path v =
     (case string_base pres path v of
        Inl errors \<Rightarrow> (v, errors)
      | Inr s \<Rightarrow> (v, string_rules lib p rules path s))"

text \<open>Keys of the value that the schema does not know, in the order of the object.\<close>

fun unknown_keys :: "prefs \<Rightarrow> jsstring list \<Rightarrow> jsstring list \<Rightarrow> jsstring list \<Rightarrow> detail list" where
  "unknown_keys p known path [] = []"
| "unknown_keys p known path (k # ks) =
     (if k \<in> set known \<or> allowUnknown p then unknown_keys p known path ks
      else if abortEarly p then [(path @ [k], ''object.unknown'')]
      else (path @ [k], ''object.unknown'') # unknown_keys p known path ks)"

text \<open>
  An object schema validates the value of each of its keys in the order of the schema,
  writes a converted value back into (a copy of) the object, and then looks for unknown
  keys. With \<open>abortEarly\<close> the errors of the first failing key are the result.
\<close>

fun validate :: "library \<Rightarrow> prefs \<Rightarrow> schema \<Rightarrow> jsstring list \<Rightarrow> jsval \<Rightarrow> jsval \<times> detail list"
  and validate_keys ::
    "library \<Rightarrow> prefs \<Rightarrow> (jsstring \<times> schema) list \<Rightarrow> jsstring list \<Rightarrow> jsobj
       \<Rightarrow> jsobj \<times> detail list \<times> bool" where
  "validate lib p (JoiNumber rules pres) path v = validate_number lib p rules pres path v"
| "validate lib p (JoiString rules pres) path v = validate_string lib p rules pres path v"
| "validate lib p (JoiObject keys pres) path v =
     (case v of
        JPrim PUndefined \<Rightarrow> (v, if pres = Required then [(path, ''any.required'')] else [])
      | JObj obj \<Rightarrow>
          (case validate_keys lib p keys path obj of
             (obj', errors, aborted) \<Rightarrow>
               if aborted then (JObj obj', errors)
               else (JObj obj', errors @ unknown_keys p (map fst keys) path (map fst obj')))
      | _ \<Rightarrow> (v, [(path, ''object.base'')]))"
| "validate_keys lib p [] path obj = (obj, [], False)"
| "validate_keys lib p ((key, child) # rest) path obj =
     (case validate lib p child (path @ [key]) (get obj key) of
        (value, errors) \<Rightarrow>
          let obj' = (if value \<noteq> JUndefined then AList.update key value obj else obj) in
          if errors \<noteq> [] \<and> abortEarly p then (obj', errors, True)
          else (case validate_keys lib p rest path obj' of
                  (obj'', errors', aborted) \<Rightarrow> (obj'', errors @ errors', aborted)))"

record validation_result =
  result_value :: jsval
  error :: "detail list option"

text \<open>\<open>schema.validate(value, options)\<close>: the options are merged into the defaults by the
  caller below; \<open>error\<close> is \<open>undefined\<close> (\<open>None\<close>) when there is no error, and else
  one error object with all the details.\<close>

definition schema_validate :: "library \<Rightarrow> schema \<Rightarrow> jsval \<Rightarrow> prefs \<Rightarrow> validation_result" where
  "schema_validate lib s v p =
     (case validate lib p s [] v of
        (v', errors) \<Rightarrow> \<lparr>result_value = v', error = (if errors = [] then None else Some errors)\<rparr>)"

subsection \<open>The schemas and functions of the repository\<close>

definition ratingSchema :: schema where
  "ratingSchema = JoiObject
     [(js ''rate'', JoiNumber [Min 0, Max 5] Required),
      (js ''count'', JoiNumber [Integer, Min 0] Required)] Optional"

definition productSchema :: schema where
  "productSchema = JoiObject
     [(js ''id'', JoiNumber [Integer, Positive] Required),
      (js ''title'', JoiString [] Required),
      (js ''price'', JoiNumber [Positive] Required),
      (js ''description'', JoiString [] Required),
      (js ''category'', JoiString [] Required),
      (js ''image'', JoiString [Uri] Required),
      (js ''rating'', ratingSchema)] Optional"

definition productSchemaWithoutRating :: schema where
  "productSchemaWithoutRating = JoiObject
     [(js ''id'', JoiNumber [Integer, Positive] Required),
      (js ''title'', JoiString [] Required),
      (js ''price'', JoiNumber [Min 0] Required),
      (js ''description'', JoiString [] Required),
      (js ''category'', JoiString [] Required),
      (js ''image'', JoiString [Uri] Required)] Optional"

definition createProductSchema :: schema where
  "createProductSchema = JoiObject
     [(js ''title'', JoiString [] Required),
      (js ''price'', JoiNumber [Positive] Required),
      (js ''description'', JoiString [] Required),
      (js ''category'', JoiString [] Required),
      (js ''image'', JoiString [Uri] Required)] Optional"

definition validateSchema :: "library \<Rightarrow> jsval \<Rightarrow> schema \<Rightarrow> validation_result" where
  "validateSchema lib data s = schema_validate lib s data (defaults\<lparr>abortEarly := False\<rparr>)"

definition assertSchema :: "library \<Rightarrow> jsval \<Rightarrow> schema \<Rightarrow> js_error + unit" where
  "assertSchema lib data s =
     (case error (validateSchema lib data s) of
        None \<Rightarrow> Inr ()
      | Some e \<Rightarrow> Inl (SchemaValidationFailed e))"

subsection \<open>What a value violates\<close>

text \<open>
  The violations of a schema by a value, stated rule by rule and key by key, with no
  order and no early end: a numeral that the conversion refuses violates that; a value
  that fails the presence or type check violates that;
  a value of the right type violates each of the rules it fails; an object violates what
  the values of the schema's keys violate, and has a violation for each key that the
  schema does not know. A value conforms when it violates nothing.
\<close>

fun violated :: "library \<Rightarrow> prefs \<Rightarrow> schema \<Rightarrow> jsstring list \<Rightarrow> jsval \<Rightarrow> detail set"
  and violated_keys ::
    "library \<Rightarrow> prefs \<Rightarrow> (jsstring \<times> schema) list \<Rightarrow> jsstring list \<Rightarrow> jsobj \<Rightarrow> detail set" where
  "violated lib p (JoiNumber rules pres) path v =
     (case number_coerce lib p v of
        (v', Some code) \<Rightarrow> {(path, code)}
      | (v', None) \<Rightarrow>
          (case number_base pres path v' of
             Inl errors \<Rightarrow> set errors
           | Inr x \<Rightarrow> {(path, number_rule_code r) | r. r \<in> set rules \<and> \<not> number_rule_ok r x}))"
| "violated lib p (JoiString rules pres) path v =
     (case string_base pres path v of
        Inl errors \<Rightarrow> set errors
      | Inr s \<Rightarrow> {(path, string_rule_code r) | r. r \<in> set rules \<and> \<not> string_rule_ok lib r s})"
| "violated lib p (JoiObject keys pres) path v =
     (case v of
        JPrim PUndefined \<Rightarrow> (if pres = Required then {(path, ''any.required'')} else {})
      | JObj obj \<Rightarrow>
          violated_keys lib p keys path obj \<union>
          {(path @ [k], ''object.unknown'') | k.
             k \<in> fst ` set obj \<and> k \<notin> fst ` set keys \<and> \<not> allowUnknown p}
      | _ \<Rightarrow> {(path, ''object.base'')})"
| "violated_keys lib p [] path obj = {}"
| "violated_keys lib p ((key, child) # rest) path obj =
     violated lib p child (path @ [key]) (get obj key) \<union> violated_keys lib p rest path obj"

definition conforms :: "library \<Rightarrow> schema \<Rightarrow> jsval \<Rightarrow> bool" where
  "conforms lib s v \<longleftrightarrow> violated lib (defaults\<lparr>abortEarly := False\<rparr>) s [] v = {}"

text \<open>A schema built from an object literal has each key once.\<close>

fun wf_schema :: "schema \<Rightarrow> bool" and wf_keys :: "(jsstring \<times> schema) list \<Rightarrow> bool" where
  "wf_schema (JoiNumber rules pres) = True"
| "wf_schema (JoiString rules pres) = True"
| "wf_schema (JoiObject keys pres) = wf_keys keys"
| "wf_keys [] = True"
| "wf_keys ((key, child) # rest) = (key \<notin> fst ` set rest \<and> wf_schema child \<and> wf_keys rest)"

text \<open>\<open>error ? error.details : []\<close>.\<close>

definition details :: "validation_result \<Rightarrow> detail list" where
  "details r = (case error r of None \<Rightarrow> [] | Some ds \<Rightarrow> ds)"

subsection \<open>Fixtures (src/data/testData.js)\<close>

text \<open>
  For the closed examples the tests of the library are fixed on the strings of the
  examples. The image URLs of the fixtures are URIs. The numeral
  \<open>0.1234567890123456789\<close> is refused (its double prints as
  \<open>0.12345678901234568\<close>); the other numerals of the examples are printed back by
  their doubles.
\<close>

definition fixtureUri :: "jsstring \<Rightarrow> bool" where
  "fixtureUri s \<longleftrightarrow>
     s \<in> set [js ''https://fakestoreapi.com/img/headphones.jpg'',
              js ''https://fakestoreapi.com/img/test.jpg'',
              js ''https://fakestoreapi.com/img/updated.jpg'']"

definition fixtureUnsafe :: "jsstring \<Rightarrow> bool" where
  "fixtureUnsafe s \<longleftrightarrow> s = js ''0.1234567890123456789''"

definition fixtureLibrary :: library where
  "fixtureLibrary = \<lparr>isUri = fixtureUri, unsafeNumeral = fixtureUnsafe\<rparr>"

definition validProduct :: jsobj where
  "validProduct =
     [(js ''title'', JString (js ''Premium Wireless Headphones'')),
      (js ''price'', JNumber (29999 / 100)),
      (js ''description'',
         JString (js ''High-quality wireless headphones with noise cancellation'')),
      (js ''image'', JString (js ''https://fakestoreapi.com/img/headphones.jpg'')),
      (js ''category'', JString (js ''electronics''))]"

definition zeroPriceProduct :: jsobj where
  "zeroPriceProduct =
     [(js ''title'', JString (js ''Free Product'')),
      (js ''price'', JNumber 0),
      (js ''description'', JString (js ''Testing zero price boundary'')),
      (js ''image'', JString (js ''https://fakestoreapi.com/img/test.jpg'')),
      (js ''category'', JString (js ''electronics''))]"


section \<open>The test context keeps a clean list\<close>

lemma world_ok_world0: "world_ok world0"
  by (simp add: world_ok_def world0_def TestContext_constructor_def alloc_def created_def)

lemma world_ok_step: "world_ok w \<Longrightarrow> world_ok (step op w)"
proof (cases op)
  case (AddCreatedProduct x)
  assume "world_ok w"
  then show ?thesis
    unfolding AddCreatedProduct
    by (auto simp: world_ok_def created_def addCreatedProduct_def push_def array_includes_def)
next
  case ClearCreatedProducts
  assume "world_ok w"
  then show ?thesis
    unfolding ClearCreatedProducts
    by (auto simp: world_ok_def created_def clearCreatedProducts_def alloc_def nth_append)
next
  case GetCreatedProducts
  assume "world_ok w"
  then show ?thesis
    unfolding GetCreatedProducts
    by (auto simp: world_ok_def created_def getCreatedProducts_def alloc_def nth_append)
next
  case (StartTimer now)
  assume "world_ok w"
  then show ?thesis
    unfolding StartTimer
    by (auto simp: world_ok_def created_def startTimer_def)
next
  case (StopTimer now)
  assume "world_ok w"
  then show ?thesis
    unfolding StopTimer
    by (auto simp: world_ok_def created_def stopTimer_def)
next
  case (MutateResult k ys)
  assume "world_ok w"
  then show ?thesis
    unfolding MutateResult
    by (auto simp: world_ok_def created_def)
qed

lemma world_ok_fold: "world_ok w \<Longrightarrow> world_ok (fold step ops w)"
  by (induction ops arbitrary: w) (simp_all add: world_ok_step)

lemma world_ok_run: "world_ok (run ops)"
  by (simp add: run_def world_ok_fold world_ok_world0)

lemma step_add_falsy: "\<not> truthy x \<Longrightarrow> step (AddCreatedProduct x) w = w"
  by (simp add: addCreatedProduct_def)

lemma step_get_copy:
  assumes "world_ok w"
  shows "created (step GetCreatedProducts w) = created w"
    and "heap (step GetCreatedProducts w) ! last (returned (step GetCreatedProducts w)) = created w"
    and "last (returned (step GetCreatedProducts w)) \<noteq> createdProducts (ctx w)"
  using assms
  by (auto simp: world_ok_def created_def getCreatedProducts_def alloc_def nth_append)

lemma step_mutate_created:
  assumes "world_ok w"
  shows "created (step (MutateResult k ys) w) = created w"
  using assms by (auto simp: world_ok_def created_def)

text \<open>
  C8. After every sequence of operations of a client (adding, clearing, reading the
  list, timing, and overwriting the arrays that reading returned) the tracked list has no
  duplicate and no falsy entry; adding a falsy id (such as 0, null or undefined) changes
  nothing; \<open>getCreatedProducts\<close> returns a new array, at an address other than the
  tracked one, with the tracked contents; and overwriting any returned array leaves the
  tracked list as it was.
\<close>

theorem testContext_created_invariant:
  "distinct (created (run ops)) \<and>
   (\<forall>x \<in> set (created (run ops)). truthy x) \<and>
   (\<forall>x. \<not> truthy x \<longrightarrow> step (AddCreatedProduct x) (run ops) = run ops) \<and>
   step (AddCreatedProduct (PNum (Fin 0))) (run ops) = run ops \<and>
   step (AddCreatedProduct PNull) (run ops) = run ops \<and>
   step (AddCreatedProduct PUndefined) (run ops) = run ops \<and>
   last (returned (step GetCreatedProducts (run ops))) \<noteq> createdProducts (ctx (run ops)) \<and>
   heap (step GetCreatedProducts (run ops)) ! last (returned (step GetCreatedProducts (run ops)))
     = created (run ops) \<and>
   created (step GetCreatedProducts (run ops)) = created (run ops) \<and>
   (\<forall>k ys. created (step (MutateResult k ys) (run ops)) = created (run ops))"
proof -
  have ok: "world_ok (run ops)" by (rule world_ok_run)
  have inv: "distinct (created (run ops)) \<and> (\<forall>x \<in> set (created (run ops)). truthy x)"
    using ok by (simp add: world_ok_def)
  have falsy: "\<forall>x. \<not> truthy x \<longrightarrow> step (AddCreatedProduct x) (run ops) = run ops"
    using step_add_falsy by blast
  have z: "step (AddCreatedProduct (PNum (Fin 0))) (run ops) = run ops"
    "step (AddCreatedProduct PNull) (run ops) = run ops"
    "step (AddCreatedProduct PUndefined) (run ops) = run ops"
    by (simp_all add: addCreatedProduct_def)
  have mut: "\<forall>k ys. created (step (MutateResult k ys) (run ops)) = created (run ops)"
    using step_mutate_created [OF ok] by blast
  show ?thesis
    using inv falsy z step_get_copy [OF ok] mut by blast
qed

theorem testContext_created_invariant_witness:
  "created (run [AddCreatedProduct (PNum (Fin 21)), AddCreatedProduct (PNum (Fin 0)),
                 AddCreatedProduct (PNum (Fin 21)), AddCreatedProduct PNull,
                 GetCreatedProducts, MutateResult 0 [PNull, PNull],
                 AddCreatedProduct (PNum (Fin 22))])
     = [PNum (Fin 21), PNum (Fin 22)] \<and>
   distinct (created (run [AddCreatedProduct (PNum (Fin 21)), AddCreatedProduct (PNum (Fin 0)),
                 AddCreatedProduct (PNum (Fin 21)), AddCreatedProduct PNull,
                 GetCreatedProducts, MutateResult 0 [PNull, PNull],
                 AddCreatedProduct (PNum (Fin 22))])) \<and>
   list_all truthy (created (run [AddCreatedProduct (PNum (Fin 21)), AddCreatedProduct (PNum (Fin 0)),
                 AddCreatedProduct (PNum (Fin 21)), AddCreatedProduct PNull,
                 GetCreatedProducts, MutateResult 0 [PNull, PNull],
                 AddCreatedProduct (PNum (Fin 22))]))"
proof -
  let ?ops = "[AddCreatedProduct (PNum (Fin 21)), AddCreatedProduct (PNum (Fin 0)),
                 AddCreatedProduct (PNum (Fin 21)), AddCreatedProduct PNull,
                 GetCreatedProducts, MutateResult 0 [PNull, PNull],
                 AddCreatedProduct (PNum (Fin 22))]"
  have e: "created (run ?ops) = [PNum (Fin 21), PNum (Fin 22)]"
    by (simp add: run_def world0_def TestContext_constructor_def alloc_def created_def
        addCreatedProduct_def getCreatedProducts_def push_def array_includes_def)
  show ?thesis
    using e testContext_created_invariant [of ?ops] by (simp add: list_all_iff)
qed

section \<open>Product id generators\<close>

lemma floor_draw_bounds:
  assumes "0 \<le> r" "r < 1" "0 < (m::nat)"
  shows "0 \<le> \<lfloor>r * real m\<rfloor>" "\<lfloor>r * real m\<rfloor> < int m"
proof -
  show "0 \<le> \<lfloor>r * real m\<rfloor>" using assms by simp
  have "r * real m < real m" using assms by simp
  then show "\<lfloor>r * real m\<rfloor> < int m" by (simp add: floor_less_iff)
qed

lemma length_chars: "length chars = 62"
  by (simp add: chars_def js_def)

lemma getValidProductId_range:
  assumes "draws_ok rnd"
  shows "1 \<le> fst (getValidProductId rnd n) \<and> fst (getValidProductId rnd n) \<le> 20"
proof -
  have r: "0 \<le> rnd n" "rnd n < 1" using assms by (simp_all add: draws_ok_def)
  from floor_draw_bounds [OF r, of 20] show ?thesis
    by (simp add: getValidProductId_def)
qed

lemma getValidProductId_onto:
  assumes "1 \<le> k" "k \<le> 20"
  shows "draws_ok (\<lambda>i. real_of_int (k - 1) / 20) \<and> fst (getValidProductId (\<lambda>i. real_of_int (k - 1) / 20) n) = k"
proof -
  have "real_of_int (k - 1) / 20 * 20 = real_of_int (k - 1)" by simp
  then have "\<lfloor>real_of_int (k - 1) / 20 * 20\<rfloor> = k - 1" by (simp only: floor_of_int)
  then show ?thesis using assms
    by (simp add: draws_ok_def getValidProductId_def)
qed

lemma charAt_draw:
  assumes "0 \<le> r" "r < 1"
  shows "\<exists>c \<in> set chars. charAt chars \<lfloor>r * real (length chars)\<rfloor> = [c]"
proof -
  have "0 < length chars" by (simp add: length_chars)
  from floor_draw_bounds [OF assms this]
  have "nat \<lfloor>r * real (length chars)\<rfloor> < length chars" by linarith
  then have "chars ! nat \<lfloor>r * real (length chars)\<rfloor> \<in> set chars" by (rule nth_mem)
  moreover have "charAt chars \<lfloor>r * real (length chars)\<rfloor> = [chars ! nat \<lfloor>r * real (length chars)\<rfloor>]"
    using floor_draw_bounds [OF assms \<open>0 < length chars\<close>] by (simp add: charAt_def)
  ultimately show ?thesis by blast
qed


lemma getInvalidProductId_range:
  assumes "draws_ok rnd"
  shows "1000 \<le> fst (getInvalidProductId rnd n) \<and> fst (getInvalidProductId rnd n) \<le> 9999"
proof -
  have r: "0 \<le> rnd n" "rnd n < 1" using assms by (simp_all add: draws_ok_def)
  from floor_draw_bounds [OF r, of 9000] show ?thesis
    by (simp add: getInvalidProductId_def)
qed

lemma getInvalidProductId_onto:
  assumes "1000 \<le> k" "k \<le> 9999"
  shows "draws_ok (\<lambda>i. real_of_int (k - 1000) / 9000) \<and> fst (getInvalidProductId (\<lambda>i. real_of_int (k - 1000) / 9000) n) = k"
proof -
  have "real_of_int (k - 1000) / 9000 * 9000 = real_of_int (k - 1000)" by simp
  then have "\<lfloor>real_of_int (k - 1000) / 9000 * 9000\<rfloor> = k - 1000" by (simp only: floor_of_int)
  then show ?thesis using assms
    by (simp add: draws_ok_def getInvalidProductId_def)
qed

lemma generateRandomString_loop_props:
  assumes "draws_ok rnd"
  shows "length (generateRandomString_loop i len result rnd n) = length result + (len - i) \<and>
         set (generateRandomString_loop i len result rnd n) \<subseteq> set result \<union> set chars"
  using assms
proof (induction i len result rnd n rule: generateRandomString_loop.induct)
  case (1 i len result rnd n)
  show ?case
  proof (cases "i < len")
    case True
    have r: "0 \<le> rnd (n + i)" "rnd (n + i) < 1" using "1.prems" by (simp_all add: draws_ok_def)
    from charAt_draw [OF r] obtain c where c: "c \<in> set chars"
      "charAt chars \<lfloor>rnd (n + i) * real (length chars)\<rfloor> = [c]" by blast
    have step: "generateRandomString_loop i len result rnd n =
        generateRandomString_loop (i + 1) len (result @ [c]) rnd n"
      using True c by (subst generateRandomString_loop.simps) simp
    from "1.IH" [OF True "1.prems"] c True show ?thesis
      unfolding step by auto
  next
    case False
    then have "generateRandomString_loop i len result rnd n = result"
      by (subst generateRandomString_loop.simps) simp
    with False show ?thesis by simp
  qed
qed

lemma generateRandomString_props:
  assumes "draws_ok rnd"
  shows "length (fst (generateRandomString len rnd n)) = len \<and>
         set (fst (generateRandomString len rnd n)) \<subseteq> set chars \<and>
         snd (generateRandomString len rnd n) = n + len"
  using generateRandomString_loop_props [OF assms, of 0 len "[]" n]
  by (simp add: generateRandomString_def)

lemma getBoundaryProductIds_fields:
  "get getBoundaryProductIds (js ''min'') = JNumber 1 \<and>
   get getBoundaryProductIds (js ''max'') = JNumber 20 \<and>
   map fst getBoundaryProductIds = [js ''min'', js ''max'']"
  by (simp add: getBoundaryProductIds_def get_def js_def)

text \<open>
  What holds of the four id generators for every draw: the valid id lies in 1..20 and
  the invalid id in 1000..9999, every integer of either range is the result of some
  draw, the boundary ids are the constants 1 and 20, and the fourth generator returns
  five characters of the 62-character alphabet (letters and digits).
\<close>

lemma product_id_generators:
  assumes "draws_ok rnd"
  shows "1 \<le> fst (getValidProductId rnd n) \<and> fst (getValidProductId rnd n) \<le> 20"
    and "1000 \<le> fst (getInvalidProductId rnd n) \<and> fst (getInvalidProductId rnd n) \<le> 9999"
    and "length (fst (getNonNumericProductId rnd n)) = 5 \<and>
         set (fst (getNonNumericProductId rnd n)) \<subseteq> set chars"
  using getValidProductId_range [OF assms] getInvalidProductId_range [OF assms]
    generateRandomString_props [OF assms, of 5 n]
  by (simp_all add: getNonNumericProductId_def)

text \<open>
  C6. The claim that \<open>getNonNumericProductId\<close> returns a non-numeric string fails on
  the code: the alphabet of \<open>generateRandomString\<close> contains the ten digits, so when
  the five draws all fall in the digit part of the alphabet (here each draw is 7/8, which
  selects index 54, the character 2) the result is the numeric string 22222.
\<close>

theorem getNonNumericProductId_all_digits:
  "getNonNumericProductId (\<lambda>i. 7 / 8) 0 = (js ''22222'', 5) \<and>
   isNumericString (fst (getNonNumericProductId (\<lambda>i. 7 / 8) 0))"
proof -
  have e: "getNonNumericProductId (\<lambda>i. 7 / 8) 0 = (js ''22222'', 5)"
    by (simp add: getNonNumericProductId_def generateRandomString_def
        generateRandomString_loop.simps chars_def js_def charAt_def)
  have "isNumericString (js ''22222'')"
    by (simp add: isNumericString_def isDigit_def js_def)
  with e show ?thesis by simp
qed

section \<open>Overrides win in generated payloads\<close>

lemma map_of_fold_update:
  "map_of (fold (\<lambda>(k, v). AList.update k v) ov base) = map_of base ++ map_of (rev ov)"
proof (induction ov arbitrary: base)
  case Nil
  show ?case by simp
next
  case (Cons p ov)
  obtain k v where p: "p = (k, v)" by (cases p)
  have "map_of (fold (\<lambda>(k, v). AList.update k v) (p # ov) base)
        = map_of (AList.update k v base) ++ map_of (rev ov)"
    using Cons.IH [of "AList.update k v base"] by (simp add: p)
  also have "\<dots> = (map_of base)(k \<mapsto> v) ++ map_of (rev ov)"
    by (simp add: update_conv')
  also have "\<dots> = map_of base ++ map_of (rev (p # ov))"
    by (rule ext) (simp add: p map_add_def split: option.splits)
  finally show ?case .
qed

lemma map_of_rev_distinct:
  assumes "distinct (map fst xs)"
  shows "map_of (rev xs) = map_of xs"
proof -
  have "map fst (rev xs) = rev (map fst xs)" by (simp add: rev_map)
  then have "distinct (map fst (rev xs))" using assms by simp
  then show ?thesis using assms by (simp add: map_of_inject_set)
qed

lemma get_spread:
  assumes "distinct (map fst overrides)"
  shows "get (spread overrides base) k =
         (if k \<in> fst ` set overrides then get overrides k else get base k)"
proof -
  have m: "map_of (spread overrides base) = map_of base ++ map_of overrides"
    by (simp add: spread_def map_of_fold_update map_of_rev_distinct [OF assms])
  show ?thesis
  proof (cases "map_of overrides k")
    case None
    then have "k \<notin> fst ` set overrides" by (simp add: map_of_eq_None_iff)
    with None show ?thesis by (simp add: get_def m map_add_def)
  next
    case (Some v)
    then have "k \<in> fst ` set overrides" by (meson domI domIff map_of_eq_None_iff)
    with Some show ?thesis by (simp add: get_def m map_add_def)
  qed
qed

lemma get_absent: "k \<notin> fst ` set obj \<Longrightarrow> get obj k = JUndefined"
  by (simp add: get_def map_of_eq_None_iff [THEN iffD2])

lemma toFixed_price_range:
  assumes "0 \<le> r" "r < 1"
  shows "1 \<le> toFixed (r * (999 - 1) + 1) 2 \<and> toFixed (r * (999 - 1) + 1) 2 \<le> 999"
proof -
  define x where "x = r * (999 - 1) + 1"
  define N where "N = \<lfloor>x * 10 ^ 2 + 1 / 2\<rfloor>"
  have x: "1 \<le> x" "x < 999" using assms by (simp_all add: x_def)
  have lo: "100 \<le> N" unfolding N_def using x by (simp add: le_floor_iff)
  have hi: "N \<le> 99900" unfolding N_def using x by (simp add: floor_le_iff)
  have t: "toFixed x 2 = real_of_int N / 100"
    using x by (simp add: toFixed_def N_def)
  have "(100::real) \<le> real_of_int N" using lo by linarith
  then have a: "1 \<le> real_of_int N / 100" by simp
  have "real_of_int N \<le> (99900::real)" using hi by linarith
  then have b: "real_of_int N / 100 \<le> 999" by simp
  show ?thesis using a b t by (simp add: x_def)
qed


lemma categories_draw:
  assumes "0 \<le> r" "r < 1"
  shows "categories ! nat \<lfloor>r * real (length categories)\<rfloor> \<in> set categories"
proof -
  have "0 < length categories" by (simp add: categories_def)
  from floor_draw_bounds [OF assms this]
  have "nat \<lfloor>r * real (length categories)\<rfloor> < length categories" by linarith
  then show ?thesis by (rule nth_mem)
qed


lemma get_Nil: "get [] k = JUndefined"
  by (simp add: get_def)

lemma get_Cons: "get ((k, v) # ps) k' = (if k = k' then v else get ps k')"
  by (simp add: get_def)

lemma js_keys_distinct:
  "js ''title'' \<noteq> js ''price''" "js ''title'' \<noteq> js ''description''"
  "js ''title'' \<noteq> js ''image''" "js ''title'' \<noteq> js ''category''"
  "js ''price'' \<noteq> js ''description''" "js ''price'' \<noteq> js ''image''"
  "js ''price'' \<noteq> js ''category''" "js ''description'' \<noteq> js ''image''"
  "js ''description'' \<noteq> js ''category''" "js ''image'' \<noteq> js ''category''"
  by (simp_all add: js_def)

text \<open>
  C9. For every overrides object (its keys distinct, as the keys of an object are) and
  every sequence of draws, the generated payload agrees with \<open>overrides\<close> on every key
  of \<open>overrides\<close>, whatever the value there (falsy or not), because the spread is
  applied last; and each of the five fields that \<open>overrides\<close> does not mention gets
  its default: a title and a description ending in 5 and 20 random characters, a price in
  [1, 999], the fixed image URL, and one of the four categories.
\<close>

theorem generateProductData_override_dominance:
  assumes d: "distinct (map fst overrides)" and r: "draws_ok rnd"
  shows "(\<forall>k \<in> fst ` set overrides.
            get (fst (generateProductData overrides rnd n)) k = get overrides k) \<and>
         (js ''title'' \<notin> fst ` set overrides \<longrightarrow>
            (\<exists>s. length s = 5 \<and> set s \<subseteq> set chars \<and>
               get (fst (generateProductData overrides rnd n)) (js ''title'')
                 = JString (js ''Test Product '' @ s))) \<and>
         (js ''price'' \<notin> fst ` set overrides \<longrightarrow>
            (\<exists>x. 1 \<le> x \<and> x \<le> 999 \<and>
               get (fst (generateProductData overrides rnd n)) (js ''price'') = JNumber x)) \<and>
         (js ''description'' \<notin> fst ` set overrides \<longrightarrow>
            (\<exists>s. length s = 20 \<and> set s \<subseteq> set chars \<and>
               get (fst (generateProductData overrides rnd n)) (js ''description'')
                 = JString (js ''Test product description '' @ s))) \<and>
         (js ''image'' \<notin> fst ` set overrides \<longrightarrow>
            get (fst (generateProductData overrides rnd n)) (js ''image'')
              = JString (js ''https://fakestoreapi.com/img/test.jpg'')) \<and>
         (js ''category'' \<notin> fst ` set overrides \<longrightarrow>
            (\<exists>c \<in> set categories.
               get (fst (generateProductData overrides rnd n)) (js ''category'') = JString c))"
proof -
  let ?res = "fst (generateProductData overrides rnd n)"
  note sp = get_spread [OF d]
  have dr: "\<And>i. 0 \<le> rnd i" "\<And>i. rnd i < 1" using r by (simp_all add: draws_ok_def)
  have ov: "\<forall>k \<in> fst ` set overrides. get ?res k = get overrides k"
    by (simp add: generateProductData_def Let_def split_def sp)
  have title: "\<exists>s. length s = 5 \<and> set s \<subseteq> set chars \<and>
      get ?res (js ''title'') = JString (js ''Test Product '' @ s)"
    if "js ''title'' \<notin> fst ` set overrides"
  proof -
    have "get ?res (js ''title'')
          = JString (js ''Test Product '' @ fst (generateRandomString 5 rnd n))"
      using that get_absent [OF that]
      by (simp add: generateProductData_def Let_def split_def sp get_Nil get_Cons)
    with generateRandomString_props [OF r, of 5 n] show ?thesis by blast
  qed
  have price: "\<exists>x. 1 \<le> x \<and> x \<le> 999 \<and> get ?res (js ''price'') = JNumber x"
    if "js ''price'' \<notin> fst ` set overrides"
  proof -
    have "\<exists>m. get ?res (js ''price'') = JNumber (toFixed (rnd m * (999 - 1) + 1) 2)"
      using that get_absent [OF that]
      by (simp add: generateProductData_def Let_def split_def sp get_Nil get_Cons js_keys_distinct
          generateRandomNumber_def) blast
    then obtain m where "get ?res (js ''price'') = JNumber (toFixed (rnd m * (999 - 1) + 1) 2)" ..
    with toFixed_price_range [OF dr(1) dr(2), of m] show ?thesis by blast
  qed
  have description: "\<exists>s. length s = 20 \<and> set s \<subseteq> set chars \<and>
      get ?res (js ''description'') = JString (js ''Test product description '' @ s)"
    if "js ''description'' \<notin> fst ` set overrides"
  proof -
    have "\<exists>m. get ?res (js ''description'')
          = JString (js ''Test product description '' @ fst (generateRandomString 20 rnd m))"
      using that get_absent [OF that]
      by (simp add: generateProductData_def Let_def split_def sp get_Nil get_Cons js_keys_distinct)
        blast
    then obtain m where "get ?res (js ''description'')
          = JString (js ''Test product description '' @ fst (generateRandomString 20 rnd m))" ..
    with generateRandomString_props [OF r, of 20 m] show ?thesis by blast
  qed
  have image: "get ?res (js ''image'') = JString (js ''https://fakestoreapi.com/img/test.jpg'')"
    if "js ''image'' \<notin> fst ` set overrides"
    using that get_absent [OF that]
    by (simp add: generateProductData_def Let_def split_def sp get_Nil get_Cons js_keys_distinct)
  have category: "\<exists>c \<in> set categories. get ?res (js ''category'') = JString c"
    if "js ''category'' \<notin> fst ` set overrides"
  proof -
    have "\<exists>m. get ?res (js ''category'')
          = JString (categories ! nat \<lfloor>rnd m * real (length categories)\<rfloor>)"
      using that get_absent [OF that]
      by (simp add: generateProductData_def Let_def split_def sp get_Nil get_Cons js_keys_distinct)
        blast
    then obtain m where "get ?res (js ''category'')
          = JString (categories ! nat \<lfloor>rnd m * real (length categories)\<rfloor>)" ..
    with categories_draw [OF dr(1) dr(2), of m] show ?thesis by blast
  qed
  show ?thesis using ov title price description image category by blast
qed

theorem generateProductData_override_dominance_witness:
  "distinct (map fst [(js ''title'', JString []), (js ''price'', JNumber 0)]) \<and>
   draws_ok (\<lambda>i. 1 / 2) \<and>
   get (fst (generateProductData [(js ''title'', JString []), (js ''price'', JNumber 0)]
              (\<lambda>i. 1 / 2) 0)) (js ''title'') = JString [] \<and>
   get (fst (generateProductData [(js ''title'', JString []), (js ''price'', JNumber 0)]
              (\<lambda>i. 1 / 2) 0)) (js ''price'') = JNumber 0 \<and>
   get (fst (generateProductData [(js ''title'', JString []), (js ''price'', JNumber 0)]
              (\<lambda>i. 1 / 2) 0)) (js ''image'')
     = JString (js ''https://fakestoreapi.com/img/test.jpg'')"
proof -
  let ?ov = "[(js ''title'', JString []), (js ''price'', JNumber 0)]"
  have d: "distinct (map fst ?ov)" by (simp add: js_def)
  have r: "draws_ok (\<lambda>i. 1 / 2)" by (simp add: draws_ok_def)
  have k: "js ''title'' \<in> fst ` set ?ov" "js ''price'' \<in> fst ` set ?ov"
    "js ''image'' \<notin> fst ` set ?ov" by (simp_all add: js_def)
  have g: "get ?ov (js ''title'') = JString []" "get ?ov (js ''price'') = JNumber 0"
    by (simp_all add: get_Cons get_Nil js_def)
  from generateProductData_override_dominance [OF d r, of 0] k g d r
  show ?thesis by simp
qed

section \<open>The non-empty-string assertion\<close>

lemma typeof_string: "typeof v = js ''string'' \<longleftrightarrow> (\<exists>s. v = JString s)"
  by (cases v rule: typeof.cases) (simp_all add: js_def)

lemma trim_empty: "trim s = [] \<longleftrightarrow> (\<forall>c \<in> set s. isWhiteSpace c)"
proof -
  have "dropWhile isWhiteSpace (rev (dropWhile isWhiteSpace s)) = []
        \<longleftrightarrow> dropWhile isWhiteSpace s = []"
  proof (cases "dropWhile isWhiteSpace s")
    case Nil
    show ?thesis unfolding Nil by simp
  next
    case (Cons c cs)
    then have "\<not> isWhiteSpace c" using hd_dropWhile [of isWhiteSpace s] by simp
    moreover have "c \<in> set (rev (dropWhile isWhiteSpace s))" using Cons by simp
    ultimately have "dropWhile isWhiteSpace (rev (dropWhile isWhiteSpace s)) \<noteq> []"
      by (auto simp only: dropWhile_eq_Nil_conv)
    then show ?thesis unfolding Cons by simp
  qed
  then show ?thesis by (simp add: trim_def dropWhile_eq_Nil_conv)
qed

text \<open>
  C5. \<open>assertStringNotEmpty\<close> passes exactly on the strings that contain a code unit
  that is not white space: it throws for every value that is not a string, for the empty
  string and for every string of white space only.
\<close>

theorem assertStringNotEmpty_passes_iff:
  "assertStringNotEmpty v = Inr () \<longleftrightarrow> (\<exists>s. v = JString s \<and> (\<exists>c \<in> set s. \<not> isWhiteSpace c))"
proof (cases "\<exists>s. v = JString s")
  case True
  then obtain s where v: "v = JString s" by blast
  show ?thesis
    by (auto simp: v assertStringNotEmpty_def expect_toBe_def expect_not_toBe_def trim_empty)
next
  case False
  then have "typeof v \<noteq> js ''string''" by (simp add: typeof_string)
  then have "assertStringNotEmpty v = Inl JestAssertionError"
    by (simp add: assertStringNotEmpty_def expect_toBe_def)
  with False show ?thesis by auto
qed

theorem assertStringNotEmpty_passes_iff_witness:
  "assertStringNotEmpty (JString (js '' a '')) = Inr () \<and>
   assertStringNotEmpty (JString (js ''   '')) \<noteq> Inr () \<and>
   assertStringNotEmpty (JString []) \<noteq> Inr () \<and>
   assertStringNotEmpty (JNumber 5) \<noteq> Inr ()"
  using assertStringNotEmpty_passes_iff [of "JString (js '' a '')"]
    assertStringNotEmpty_passes_iff [of "JString (js ''   '')"]
    assertStringNotEmpty_passes_iff [of "JString []"]
    assertStringNotEmpty_passes_iff [of "JNumber 5"]
  by (simp add: js_def isWhiteSpace_def)

section \<open>Rounding to doubles\<close>

lemma binade_bounds:
  assumes "x \<noteq> 0"
  shows "2 powr of_int (binade x) \<le> \<bar>x\<bar>" "\<bar>x\<bar> < 2 powr of_int (binade x + 1)"
proof -
  have p: "0 < \<bar>x\<bar>" using assms by simp
  have "of_int (binade x) \<le> log 2 \<bar>x\<bar>" by (simp add: binade_def)
  then have "2 powr of_int (binade x) \<le> 2 powr log 2 \<bar>x\<bar>" by simp
  then show "2 powr of_int (binade x) \<le> \<bar>x\<bar>" using p by simp
  have "log 2 \<bar>x\<bar> < of_int (binade x + 1)" by (simp add: binade_def)
  then have "2 powr log 2 \<bar>x\<bar> < 2 powr of_int (binade x + 1)" by simp
  then show "\<bar>x\<bar> < 2 powr of_int (binade x + 1)" using p by simp
qed

lemma binade_eq:
  assumes "2 powr of_int e \<le> \<bar>x\<bar>" "\<bar>x\<bar> < 2 powr of_int (e + 1)"
  shows "binade x = e"
proof -
  have p: "0 < \<bar>x\<bar>" using assms(1) by (smt (verit) powr_gt_zero)
  have "of_int e \<le> log 2 \<bar>x\<bar>" using assms(1) p by (simp add: le_log_iff)
  moreover have "log 2 \<bar>x\<bar> < of_int (e + 1)" using assms(2) p by (simp add: log_less_iff)
  ultimately show ?thesis unfolding binade_def by linarith
qed

lemma round_even_int [simp]: "round_even (of_int m) = m"
  by (simp add: round_even_def)

lemma round_even_le: "of_int (round_even q) \<le> q + 1 / 2"
  unfolding round_even_def Let_def by (auto; linarith)

lemma ulp_pos: "0 < ulp x"
  by (simp add: ulp_def)


lemma nearest_double_exact:
  assumes "x = of_int m * ulp x" "\<bar>x\<bar> < 2 ^ 1024"
  shows "nearest_double x = Fin x"
proof (cases "x = 0")
  case True
  then show ?thesis by (simp add: nearest_double_def)
next
  case False
  have "x / ulp x = of_int m" using assms(1) ulp_pos [of x] by (simp add: field_simps)
  then have "of_int (round_even (x / ulp x)) * ulp x = x" using assms(1) by simp
  with False assms(2) show ?thesis by (simp add: nearest_double_def Let_def)
qed

lemma representable_nat:
  assumes "n < 2 ^ 53"
  shows "nearest_double (real n) = Fin (real n)"
proof (cases "n = 0")
  case True
  then show ?thesis by (simp add: nearest_double_def)
next
  case False
  let ?x = "real n"
  have x: "?x \<noteq> 0" "1 \<le> \<bar>?x\<bar>" using False by simp_all
  have lo: "0 \<le> binade ?x"
  proof -
    have "0 \<le> log 2 \<bar>?x\<bar>" using x(2) by simp
    then show ?thesis by (simp add: binade_def)
  qed
  have hi: "binade ?x \<le> 52"
  proof -
    have "real n < 2 ^ 53" using assms by (metis of_nat_less_iff of_nat_numeral of_nat_power)
    then have "\<bar>?x\<bar> < 2 powr 53" by simp
    then have "log 2 \<bar>?x\<bar> < 53" using x(2) by (simp add: log_less_iff)
    then show ?thesis unfolding binade_def by linarith
  qed
  define k where "k = nat (52 - binade ?x)"
  have u: "ulp ?x = 1 / 2 ^ k"
  proof -
    have "max (binade ?x) (- 1022) - 52 = - int k" using lo hi by (simp add: k_def)
    then have "ulp ?x = 2 powr (- real k)" by (simp add: ulp_def)
    also have "\<dots> = 1 / 2 ^ k" by (simp add: powr_minus powr_realpow field_simps)
    finally show ?thesis .
  qed
  have "?x = of_int (int n * 2 ^ k) * ulp ?x" by (simp add: u)
  moreover have "\<bar>?x\<bar> < 2 ^ 1024"
  proof -
    have "real n < 2 ^ 53" using assms by (metis of_nat_less_iff of_nat_numeral of_nat_power)
    also have "(2::real) ^ 53 < 2 ^ 1024" by simp
    finally show ?thesis by simp
  qed
  ultimately show ?thesis by (rule nearest_double_exact)
qed

lemma binade_double:
  assumes "x \<noteq> 0"
  shows "binade (2 * x) = binade x + 1"
proof -
  have "log 2 \<bar>2 * x\<bar> = 1 + log 2 \<bar>x\<bar>"
    using assms by (simp add: abs_mult log_mult)
  then show ?thesis unfolding binade_def by linarith
qed

lemma representable_double:
  assumes "representable x" "\<bar>2 * x\<bar> < 2 ^ 1024"
  shows "representable (2 * x)"
proof (cases "x = 0")
  case True
  then show ?thesis by (simp add: representable_def nearest_double_def)
next
  case False
  define m where "m = round_even (x / ulp x)"
  from assms(1) False have "of_int m * ulp x = x"
    by (simp add: representable_def nearest_double_def Let_def m_def split: if_splits)
  then have x: "x = of_int m * ulp x" by simp
  have b: "binade (2 * x) = binade x + 1" by (rule binade_double [OF False])
  show ?thesis
  proof (cases "- 1022 \<le> binade x")
    case True
    then have "max (binade (2 * x)) (- 1022) - 52 = (max (binade x) (- 1022) - 52) + 1"
      by (simp add: b)
    then have "ulp (2 * x) = 2 powr (of_int (max (binade x) (- 1022) - 52) + 1)"
      by (simp add: ulp_def)
    also have "\<dots> = 2 * ulp x"
      by (simp only: powr_add ulp_def) simp
    finally have "ulp (2 * x) = 2 * ulp x" .
    with x have "2 * x = of_int m * ulp (2 * x)" by simp
    from nearest_double_exact [OF this assms(2)] show ?thesis by (simp add: representable_def)
  next
    case False
    then have "max (binade (2 * x)) (- 1022) - 52 = max (binade x) (- 1022) - 52"
      by (simp add: b)
    then have "ulp (2 * x) = ulp x" by (simp add: ulp_def)
    with x have "2 * x = of_int (2 * m) * ulp (2 * x)" by simp
    from nearest_double_exact [OF this assms(2)] show ?thesis by (simp add: representable_def)
  qed
qed

lemma nearest_double_negative:
  assumes "x \<le> - 1 / 2"
  shows "nearest_double x = NegInf \<or> (\<exists>y < 0. nearest_double x = Fin y)"
proof -
  have x: "x \<noteq> 0" "x < 0" using assms by simp_all
  have "- 1 \<le> log 2 \<bar>x\<bar>"
  proof -
    have "2 powr (- 1) \<le> \<bar>x\<bar>" using assms by (simp add: powr_minus)
    then show ?thesis using x(1) by (simp add: le_log_iff)
  qed
  then have b: "- 1 \<le> binade x" unfolding binade_def by linarith
  then have u: "ulp x = 2 powr of_int (binade x - 52)" by (simp add: ulp_def max_def)
  have "2 powr of_int (binade x) \<le> \<bar>x\<bar>" by (rule binade_bounds(1) [OF x(1)])
  then have "2 powr of_int (binade x) / ulp x \<le> \<bar>x\<bar> / ulp x"
    using ulp_pos [of x] by (simp add: divide_right_mono)
  moreover have "2 powr of_int (binade x) / ulp x = 2 powr 52"
    unfolding u by (simp add: powr_diff [symmetric])
  ultimately have "2 powr 52 \<le> \<bar>x\<bar> / ulp x" by simp
  moreover have "(1::real) \<le> 2 powr 52" by simp
  ultimately have "1 \<le> \<bar>x\<bar> / ulp x" by linarith
  then have q: "x / ulp x \<le> - 1" using x(2) by (simp add: abs_if)
  have "of_int (round_even (x / ulp x)) \<le> x / ulp x + 1 / 2" by (rule round_even_le)
  with q have "real_of_int (round_even (x / ulp x)) < 0" by linarith
  then have "of_int (round_even (x / ulp x)) * ulp x < 0"
    using ulp_pos [of x] by (simp add: mult_neg_pos)
  with x show ?thesis by (auto simp: nearest_double_def Let_def)
qed


lemma nearest_double_stuck:
  "nearest_double (9007199254740996 - 1) = Fin 9007199254740996"
proof -
  let ?x = "9007199254740995 :: real"
  have "binade ?x = 53"
    by (rule binade_eq) (simp_all add: powr_realpow [symmetric] del: powr_numeral)
  then have u: "ulp ?x = 2" by (simp add: ulp_def)
  have f: "\<lfloor>?x / 2\<rfloor> = 4503599627370497" by linarith
  have "round_even (?x / 2) = 4503599627370498"
    unfolding round_even_def Let_def f by simp
  then show ?thesis by (simp add: nearest_double_def u Let_def)
qed


section \<open>The retry helper returns\<close>

lemma backoff_delays:
  "d # map (backoff (js_times d (Fin 2))) [0..<k] = map (backoff d) [0..<Suc k]"
  by (simp add: map_upt_Suc del: upt_Suc)

lemma backoff_exact:
  "representable x \<Longrightarrow> \<bar>x\<bar> * 2 ^ i < 2 ^ 1024 \<Longrightarrow> backoff (Fin x) i = Fin (x * 2 ^ i)"
proof (induction i arbitrary: x)
  case 0
  show ?case by simp
next
  case (Suc i)
  have "(1::real) \<le> 2 ^ i" by simp
  then have "\<bar>x\<bar> * 1 \<le> \<bar>x\<bar> * 2 ^ i" by (intro mult_left_mono) simp_all
  then have "\<bar>x\<bar> * 2 \<le> \<bar>x\<bar> * 2 ^ Suc i" by simp
  with Suc.prems(2) have b: "\<bar>2 * x\<bar> < 2 ^ 1024" by simp
  from representable_double [OF Suc.prems(1) b]
  have r: "representable (2 * x)" .
  then have "js_times (Fin x) (Fin 2) = Fin (2 * x)"
    by (simp add: representable_def mult.commute)
  moreover have "\<bar>2 * x\<bar> * 2 ^ i < 2 ^ 1024" using Suc.prems(2) by (simp add: abs_mult mult.assoc)
  ultimately show ?case using Suc.IH [OF r] by (simp add: mult.assoc mult.left_commute)
qed

lemma retryWithBackoff_never_returns:
  fixes fn :: "nat \<Rightarrow> 'e + 'a"
  assumes inv: "\<And>r. I r \<Longrightarrow> r \<noteq> Fin 0 \<and> I (js_minus r (Fin 1))"
    and fails: "\<And>k. isl (fn k)"
    and start: "I r"
  shows "retryWithBackoff fn r d st = None"
proof (rule ccontr)
  assume "retryWithBackoff fn r d st \<noteq> None"
  then obtain y where y: "retryWithBackoff fn r d st = Some y" by blast
  have "\<not> (I r \<and> (\<forall>k. isl (fn k)))"
  proof (rule retryWithBackoff.raw_induct
      [where P = "\<lambda>fn r d st y. \<not> (I r \<and> (\<forall>k. isl (fn k)))", OF _ y])
    fix retry :: "(nat \<Rightarrow> 'e + 'a) \<Rightarrow> jsnum \<Rightarrow> jsnum \<Rightarrow> nat \<times> jsnum list
        \<Rightarrow> (('e + 'a) \<times> nat \<times> jsnum list) option"
    fix fn :: "nat \<Rightarrow> 'e + 'a" and r d :: jsnum and st :: "nat \<times> jsnum list"
      and y :: "('e + 'a) \<times> nat \<times> jsnum list"
    assume IH: "\<And>fn r d st y. retry fn r d st = Some y \<Longrightarrow> \<not> (I r \<and> (\<forall>k. isl (fn k)))"
    assume body: "(case st of
        (calls, waits) \<Rightarrow>
          (case fn calls of
             Inl err \<Rightarrow>
               if r = Fin 0 then Some (Inl err, calls + 1, waits)
               else retry fn (js_minus r (Fin 1)) (js_times d (Fin 2)) (calls + 1, waits @ [d])
           | Inr v \<Rightarrow> Some (Inr v, calls + 1, waits))) = Some y"
    obtain calls waits where st: "st = (calls, waits)" by (cases st)
    show "\<not> (I r \<and> (\<forall>k. isl (fn k)))"
    proof
      assume a: "I r \<and> (\<forall>k. isl (fn k))"
      then obtain e where e: "fn calls = Inl e" by (cases "fn calls") (auto dest: spec [of _ calls])
      from a inv have n: "r \<noteq> Fin 0" "I (js_minus r (Fin 1))" by blast+
      from body st e n(1)
      have "retry fn (js_minus r (Fin 1)) (js_times d (Fin 2)) (calls + 1, waits @ [d]) = Some y"
        by simp
      from IH [OF this] n(2) a show False by blast
    qed
  qed
  with fails start show False by blast
qed

text \<open>
  C7, as stated, fails on the code. With a retry count that is no integer (one half) and
  an \<open>fn\<close> that always fails, \<open>retries\<close> goes from 0.5 to -0.5 and on downwards and
  is never \<open>0\<close>. With the integer count 9007199254740996 (2 to the power 53, plus
  4) \<open>retries - 1\<close> rounds back to \<open>retries\<close>. In both cases the helper does not
  return.
\<close>

theorem retryWithBackoff_does_not_return:
  "retryWithBackoff (\<lambda>k. Inl ''timeout'' :: string + nat) (Fin (1 / 2)) (Fin 1000) (0, []) = None \<and>
   retryWithBackoff (\<lambda>k. Inl ''timeout'' :: string + nat) (Fin 9007199254740996) (Fin 1000) (0, [])
     = None"
proof
  let ?I = "\<lambda>r. r = NegInf \<or> (\<exists>y < 0. r = Fin y)"
  have inv: "r \<noteq> Fin 0 \<and> ?I (js_minus r (Fin 1))" if "?I r" for r
  proof -
    from that show ?thesis
    proof
      assume "r = NegInf"
      then show ?thesis by simp
    next
      assume "\<exists>y < 0. r = Fin y"
      then obtain y where y: "y < 0" "r = Fin y" by blast
      then have "y - 1 \<le> - 1 / 2" by simp
      from nearest_double_negative [OF this] y show ?thesis by simp
    qed
  qed
  have s: "?I (js_minus (Fin (1 / 2)) (Fin 1))"
    using nearest_double_negative [of "1 / 2 - 1"] by simp
  have "retryWithBackoff (\<lambda>k. Inl ''timeout'' :: string + nat) (Fin (1 / 2)) (Fin 1000) (0, [])
        = retryWithBackoff (\<lambda>k. Inl ''timeout'' :: string + nat) (js_minus (Fin (1 / 2)) (Fin 1))
            (js_times (Fin 1000) (Fin 2)) (0 + 1, [] @ [Fin 1000])"
    by (subst retryWithBackoff.simps) simp
  also have "\<dots> = None"
    by (rule retryWithBackoff_never_returns [where I = ?I, OF inv _ s]) simp_all
  finally show "retryWithBackoff (\<lambda>k. Inl ''timeout'' :: string + nat) (Fin (1 / 2)) (Fin 1000) (0, [])
        = None" .
next
  let ?J = "\<lambda>r. r = Fin 9007199254740996"
  have "r \<noteq> Fin 0 \<and> ?J (js_minus r (Fin 1))" if "?J r" for r
    using that nearest_double_stuck by simp
  then show "retryWithBackoff (\<lambda>k. Inl ''timeout'' :: string + nat) (Fin 9007199254740996) (Fin 1000) (0, [])
     = None"
    by (rule retryWithBackoff_never_returns [where I = ?J]) simp_all
qed

text \<open>
  C7, amended. For every retry count \<open>n\<close> that is a natural number below 2 to the
  power 53 (the safe integers, on which \<open>retries - 1\<close> is exact), every \<open>fn\<close> and
  every initial delay \<open>d\<close>, \<open>retryWithBackoff\<close> returns: there is a \<open>k \<le> n\<close>
  such that the first \<open>k\<close> calls of \<open>fn\<close> fail, call \<open>k\<close> is the last one made
  (so at most \<open>n + 1\<close> calls), the wait after the \<open>i\<close>-th failed call is \<open>d\<close>
  doubled \<open>i\<close> times, and the outcome is that of call \<open>k\<close>: the first success,
  or, when \<open>k = n\<close> and that call fails too, its error. The doubled delays are
  \<open>d, 2d, 4d, ...\<close> as long as these are below 2 to the power 1024 (beyond which a
  double is \<open>Infinity\<close>) and \<open>d\<close> is a double.
\<close>

theorem retryWithBackoff_terminates:
  assumes "n < 2 ^ 53"
  shows "(\<exists>k \<le> n. retryWithBackoff fn (Fin (real n)) d (c, w)
              = Some (fn (c + k), c + k + 1, w @ map (backoff d) [0..<k]) \<and>
            (\<forall>i < k. isl (fn (c + i))) \<and> (k < n \<longrightarrow> \<not> isl (fn (c + k)))) \<and>
         (\<forall>x i. representable x \<and> \<bar>x\<bar> * 2 ^ i < 2 ^ 1024 \<longrightarrow> backoff (Fin x) i = Fin (x * 2 ^ i))"
proof
  show "\<exists>k \<le> n. retryWithBackoff fn (Fin (real n)) d (c, w)
              = Some (fn (c + k), c + k + 1, w @ map (backoff d) [0..<k]) \<and>
            (\<forall>i < k. isl (fn (c + i))) \<and> (k < n \<longrightarrow> \<not> isl (fn (c + k)))"
    using assms
  proof (induction n arbitrary: d c w)
    case 0
    show ?case
      by (cases "fn c") (simp_all add: retryWithBackoff.simps)
  next
    case (Suc n)
    show ?case
    proof (cases "fn c")
      case (Inr v)
      then have "retryWithBackoff fn (Fin (real (Suc n))) d (c, w)
                 = Some (fn (c + 0), c + 0 + 1, w @ map (backoff d) [0..<0])"
        by (simp add: retryWithBackoff.simps)
      moreover have "\<not> isl (fn (c + 0))" using Inr by simp
      ultimately show ?thesis by (intro exI [of _ 0]) simp
    next
      case (Inl e)
      have n: "n < 2 ^ 53" using Suc.prems by simp
      from Suc.IH [OF n, of "js_times d (Fin 2)" "c + 1" "w @ [d]"] obtain k where k: "k \<le> n"
        "retryWithBackoff fn (Fin (real n)) (js_times d (Fin 2)) (c + 1, w @ [d])
          = Some (fn (c + 1 + k), c + 1 + k + 1,
                  (w @ [d]) @ map (backoff (js_times d (Fin 2))) [0..<k])"
        "\<forall>i < k. isl (fn (c + 1 + i))" "k < n \<longrightarrow> \<not> isl (fn (c + 1 + k))"
        by blast
      have z: "Fin (real (Suc n)) \<noteq> Fin 0" by simp
      have "retryWithBackoff fn (Fin (real (Suc n))) d (c, w)
            = retryWithBackoff fn (Fin (real n)) (js_times d (Fin 2)) (c + 1, w @ [d])"
        using Inl z by (subst retryWithBackoff.simps) (simp add: representable_nat [OF n])
      with k(2) have r: "retryWithBackoff fn (Fin (real (Suc n))) d (c, w)
            = Some (fn (c + Suc k), c + Suc k + 1, w @ map (backoff d) [0..<Suc k])"
        by (simp add: backoff_delays [symmetric] del: upt_Suc)
      have f: "\<forall>i < Suc k. isl (fn (c + i))"
      proof (intro allI impI)
        fix i assume "i < Suc k"
        show "isl (fn (c + i))"
        proof (cases i)
          case 0
          then show ?thesis using Inl by simp
        next
          case (Suc j)
          with \<open>i < Suc k\<close> k(3) show ?thesis by simp
        qed
      qed
      have l: "Suc k < Suc n \<longrightarrow> \<not> isl (fn (c + Suc k))" using k(4) by simp
      from k(1) r f l show ?thesis by (intro exI [of _ "Suc k"]) simp
    qed
  qed
  show "\<forall>x i. representable x \<and> \<bar>x\<bar> * 2 ^ i < 2 ^ 1024 \<longrightarrow> backoff (Fin x) i = Fin (x * 2 ^ i)"
    using backoff_exact by blast
qed


theorem retryWithBackoff_terminates_witness:
  "retryWithBackoff (\<lambda>k. if k < 2 then Inl ''timeout'' else Inr (7::nat)) (Fin 3) (Fin 1000) (0, [])
     = Some (Inr 7, 3, [Fin 1000, Fin 2000])"
proof -
  let ?fn = "\<lambda>k::nat. if k < 2 then Inl ''timeout'' else (Inr (7::nat) :: string + nat)"
  have b: "(3::nat) < 2 ^ 53" by simp
  from retryWithBackoff_terminates [OF b, of ?fn "Fin 1000" 0 "[]"]
  obtain k where k: "k \<le> 3"
    "retryWithBackoff ?fn (Fin (real 3)) (Fin 1000) (0, [])
       = Some (?fn (0 + k), 0 + k + 1, [] @ map (backoff (Fin 1000)) [0..<k])"
    "\<forall>i < k. isl (?fn (0 + i))" "k < 3 \<longrightarrow> \<not> isl (?fn (0 + k))"
    and e: "\<forall>x i. representable x \<and> \<bar>x\<bar> * 2 ^ i < 2 ^ 1024 \<longrightarrow> backoff (Fin x) i = Fin (x * 2 ^ i)"
    by blast
  have "k \<noteq> 3" using k(3) [rule_format, of 2] by auto
  with k(1) have "k < 3" by simp
  with k(4) have "2 \<le> k" by (auto split: if_splits)
  with \<open>k < 3\<close> have k2: "k = 2" by simp
  have r: "representable 1000" using representable_nat [of 1000] by (simp add: representable_def)
  have "backoff (Fin 1000) 1 = Fin 2000" using e [rule_format, of 1000 1] r by simp
  with k(2) k2 show ?thesis by (simp add: upt_rec)
qed


section \<open>Unknown environment names\<close>

lemma config_undefined_iff:
  "config (Some name) = ConfigUndefined \<longleftrightarrow>
     name \<noteq> [] \<and> name \<notin> fst ` set environments \<and> name \<notin> set objectPrototypeKeys"
proof (cases "name = []")
  case True
  then show ?thesis by (simp add: config_def currentEnv_def environments_def js_def)
next
  case False
  then have c: "currentEnv (Some name) = name" by (simp add: currentEnv_def)
  show ?thesis
  proof (cases "map_of environments name")
    case None
    then have "name \<notin> fst ` set environments" by (simp add: map_of_eq_None_iff)
    with None False show ?thesis by (simp add: config_def c)
  next
    case (Some p)
    then have "name \<in> fst ` set environments" by (meson domI domIff map_of_eq_None_iff)
    with Some show ?thesis by (simp add: config_def c)
  qed
qed

lemma config_default: "config None = config (Some (js ''development''))"
proof -
  have "currentEnv None = currentEnv (Some (js ''development''))"
    by (simp add: currentEnv_def js_def)
  then show ?thesis by (simp only: config_def)
qed

lemma config_empty: "config (Some []) = config None"
proof -
  have "currentEnv (Some []) = currentEnv None" by (simp add: currentEnv_def)
  then show ?thesis by (simp only: config_def)
qed

text \<open>
  C10, as stated, fails on the code at two kinds of names outside the four profiles: the
  empty name is falsy, so \<open>||\<close> replaces it by the development profile, and the name of
  an inherited property (here \<open>constructor\<close>) yields that property, not
  \<open>undefined\<close>, after which the client is built with an undefined base URL and its
  requests go to \<open>undefined/products\<close>.
\<close>

theorem unknown_environment_counterexample:
  "[] \<notin> fst ` set environments \<and>
   config (Some [])
     = Profile \<lparr>baseURL = js ''https://fakestoreapi.com'', timeout = 10000, retryAttempts = 3,
                logLevel = js ''debug''\<rparr> \<and>
   js ''constructor'' \<notin> fst ` set environments \<and>
   config (Some (js ''constructor'')) = Inherited (js ''constructor'') \<and>
   client_call (Some (js ''constructor'')) getAllProducts
     = Inr \<lparr>http_method = ''GET'', url = js ''undefined/products'', body = None,
            request_timeout = None\<rparr>"
proof -
  have a: "[] \<notin> fst ` set environments" "js ''constructor'' \<notin> fst ` set environments"
    by (simp_all add: environments_def js_def)
  have b: "config (Some [])
     = Profile \<lparr>baseURL = js ''https://fakestoreapi.com'', timeout = 10000, retryAttempts = 3,
                logLevel = js ''debug''\<rparr>"
    by (simp add: config_def currentEnv_def environments_def js_def)
  have c: "config (Some (js ''constructor'')) = Inherited (js ''constructor'')"
    by (simp add: config_def currentEnv_def environments_def js_def objectPrototypeKeys_def)
  have d: "client_call (Some (js ''constructor'')) getAllProducts
     = Inr \<lparr>http_method = ''GET'', url = js ''undefined/products'', body = None,
            request_timeout = None\<rparr>"
    by (simp add: c client_call_def apiClient_module_def ApiClient_constructor_def
        getAllProducts_def client_get_def send_def buildUrl_def) (simp add: js_def)
  from a b c d show ?thesis by simp
qed

text \<open>
  C10, amended. For every non-empty environment name that is neither one of the four
  profiles nor the name of a property inherited from \<open>Object.prototype\<close>, the exported
  \<open>config\<close> is \<open>undefined\<close>, building the client throws a TypeError at
  \<open>config.baseURL\<close> when the module is loaded, and so every use \<open>op\<close> of the client
  fails with that error; there is no fall-back to a profile. An empty name, like an unset
  one, selects the development profile.
\<close>

theorem unknown_environment_breaks_client:
  assumes "name \<noteq> []" "name \<notin> fst ` set environments" "name \<notin> set objectPrototypeKeys"
  shows "config (Some name) = ConfigUndefined \<and>
         apiClient_module (Some name) = Inl TypeError \<and>
         client_call (Some name) op = Inl TypeError \<and>
         config (Some []) = config None \<and>
         config None = config (Some (js ''development''))"
proof -
  have c: "config (Some name) = ConfigUndefined" using assms by (simp add: config_undefined_iff)
  then have m: "apiClient_module (Some name) = Inl TypeError"
    by (simp add: apiClient_module_def ApiClient_constructor_def)
  then have "client_call (Some name) op = Inl TypeError" by (simp add: client_call_def)
  with c m config_empty config_default show ?thesis by simp
qed

theorem unknown_environment_breaks_client_witness:
  "config (Some (js ''qa'')) = ConfigUndefined \<and>
   apiClient_module (Some (js ''qa'')) = Inl TypeError \<and>
   client_call (Some (js ''qa'')) getAllProducts = Inl TypeError"
proof -
  have a: "js ''qa'' \<noteq> []" "js ''qa'' \<notin> fst ` set environments"
    "js ''qa'' \<notin> set objectPrototypeKeys"
    by (simp_all add: js_def environments_def objectPrototypeKeys_def)
  from unknown_environment_breaks_client [OF a, of getAllProducts] show ?thesis by simp
qed

section \<open>Validation without early abort reports every violation\<close>

lemma number_rules_collect:
  "\<not> abortEarly p \<Longrightarrow>
   set (number_rules p rules path x)
     = {(path, number_rule_code r) | r. r \<in> set rules \<and> \<not> number_rule_ok r x}"
  by (induction rules) auto

lemma string_rules_collect:
  "\<not> abortEarly p \<Longrightarrow>
   set (string_rules lib p rules path s)
     = {(path, string_rule_code r) | r. r \<in> set rules \<and> \<not> string_rule_ok lib r s}"
  by (induction rules) auto

lemma unknown_keys_collect:
  "\<not> abortEarly p \<Longrightarrow>
   set (unknown_keys p known path ks)
     = {(path @ [k], ''object.unknown'') | k. k \<in> set ks \<and> k \<notin> set known \<and> \<not> allowUnknown p}"
  by (induction ks) auto

lemma number_coerce_undefined: "fst (number_coerce lib p v) = JUndefined \<longleftrightarrow> v = JUndefined"
  by (auto simp: number_coerce_def split: jsval.splits jsprim.splits option.splits)

lemma validate_value_undefined:
  "fst (validate lib p S path v) = JUndefined \<longleftrightarrow> v = JUndefined"
proof (cases S)
  case (JoiNumber rules pres)
  then show ?thesis
    using number_coerce_undefined [of lib p v]
    by (auto simp: validate_number_def split: sum.splits prod.splits option.splits)
next
  case (JoiString rules pres)
  then show ?thesis by (simp add: validate_string_def split: sum.splits)
next
  case (JoiObject keys pres)
  then show ?thesis
    by (auto split: jsval.splits jsprim.splits prod.splits)
qed

lemma get_update: "get (AList.update k v obj) k' = (if k' = k then v else get obj k')"
  by (simp add: get_def update_conv')

lemma keys_update: "k \<in> fst ` set obj \<Longrightarrow> map fst (AList.update k v obj) = map fst obj"
  by (simp add: update_keys)

lemma get_defined_key: "get obj k \<noteq> JUndefined \<Longrightarrow> k \<in> fst ` set obj"
  using get_absent by blast

lemma violated_keys_cong:
  "(\<And>k. k \<in> fst ` set keys \<Longrightarrow> get a k = get b k) \<Longrightarrow>
   violated_keys lib p keys path a = violated_keys lib p keys path b"
  by (induction keys) auto


lemma validate_collect:
  "\<not> abortEarly p \<Longrightarrow> wf_schema S \<Longrightarrow>
     set (snd (validate lib p S path v)) = violated lib p S path v"
  and validate_keys_collect:
  "\<not> abortEarly p \<Longrightarrow> wf_keys keys \<Longrightarrow>
     (case validate_keys lib p keys path obj of
        (obj', errors, aborted) \<Rightarrow>
          set errors = violated_keys lib p keys path obj \<and> \<not> aborted \<and>
          map fst obj' = map fst obj)"
proof (induction lib p S path v and lib p keys path obj rule: validate_validate_keys.induct)
  case (1 lib p rules pres path v)
  then show ?case
    by (simp add: validate_number_def number_rules_collect
        split: sum.splits prod.splits option.splits)
next
  case (2 lib p rules pres path v)
  then show ?case
    by (simp add: validate_string_def string_rules_collect split: sum.splits)
next
  case (3 lib p keys pres path v)
  show ?case
  proof (cases v)
    case (JObj obj)
    obtain obj' errors aborted where r: "validate_keys lib p keys path obj = (obj', errors, aborted)"
      by (cases "validate_keys lib p keys path obj") auto
    from "3.IH" [OF JObj] "3.prems" r
    have q: "set errors = violated_keys lib p keys path obj" "\<not> aborted"
      "map fst obj' = map fst obj" by simp_all
    from q r JObj "3.prems"(1) show ?thesis
      by (simp add: unknown_keys_collect)
  next
    case (JPrim x)
    then show ?thesis by (cases x) simp_all
  next
    case (JArr vs)
    then show ?thesis by simp
  qed
next
  case (4 lib p path obj)
  show ?case by simp
next
  case (5 lib p key child rest path obj)
  obtain val errs where c: "validate lib p child (path @ [key]) (get obj key) = (val, errs)"
    by (cases "validate lib p child (path @ [key]) (get obj key)") auto
  define obj1 where "obj1 = (if val \<noteq> JUndefined then AList.update key val obj else obj)"
  obtain obj2 errs2 ab2 where r: "validate_keys lib p rest path obj1 = (obj2, errs2, ab2)"
    by (cases "validate_keys lib p rest path obj1") auto
  from "5.prems" have w: "key \<notin> fst ` set rest" "wf_schema child" "wf_keys rest" by simp_all
  have e1: "set errs = violated lib p child (path @ [key]) (get obj key)"
    using "5.IH"(1) [OF "5.prems"(1) w(2)] c by simp
  have "\<not> (errs \<noteq> [] \<and> abortEarly p)" using "5.prems"(1) by simp
  from "5.IH"(2) [OF c [symmetric] obj1_def this "5.prems"(1) w(3)] r
  have q: "set errs2 = violated_keys lib p rest path obj1" "\<not> ab2" "map fst obj2 = map fst obj1"
    by simp_all
  have k1: "map fst obj1 = map fst obj"
  proof (cases "val = JUndefined")
    case True
    then show ?thesis by (simp add: obj1_def)
  next
    case False
    then have "get obj key \<noteq> JUndefined"
      using validate_value_undefined [of lib p child "path @ [key]" "get obj key"] c by simp
    then have "key \<in> fst ` set obj" by (rule get_defined_key)
    then show ?thesis using False by (simp add: obj1_def keys_update)
  qed
  have "violated_keys lib p rest path obj1 = violated_keys lib p rest path obj"
  proof (rule violated_keys_cong)
    fix k assume "k \<in> fst ` set rest"
    with w(1) have "k \<noteq> key" by auto
    then show "get obj1 k = get obj k" by (simp add: obj1_def get_update)
  qed
  with q k1 e1 c r "5.prems"(1) show ?case
    by (simp add: obj1_def [symmetric] Let_def)
qed

lemma collect_prefs [simp]:
  "abortEarly (defaults\<lparr>abortEarly := False\<rparr>) = False"
  "convert (defaults\<lparr>abortEarly := False\<rparr>) = True"
  "allowUnknown (defaults\<lparr>abortEarly := False\<rparr>) = False"
  by (simp_all add: defaults_def)

lemma details_validateSchema:
  assumes "wf_schema S"
  shows "set (details (validateSchema lib data S))
           = violated lib (defaults\<lparr>abortEarly := False\<rparr>) S [] data"
proof -
  obtain v errs where r: "validate lib (defaults\<lparr>abortEarly := False\<rparr>) S [] data = (v, errs)"
    by (cases "validate lib (defaults\<lparr>abortEarly := False\<rparr>) S [] data") auto
  have "set errs = violated lib (defaults\<lparr>abortEarly := False\<rparr>) S [] data"
    using validate_collect [of "defaults\<lparr>abortEarly := False\<rparr>" S lib "[]" data] assms r by simp
  then show ?thesis
    by (auto simp: details_def validateSchema_def schema_validate_def r)
qed

lemma error_validateSchema:
  "error (validateSchema lib data S) = None \<longleftrightarrow> details (validateSchema lib data S) = []"
  "error (validateSchema lib data S) = Some ds \<Longrightarrow> details (validateSchema lib data S) = ds"
  by (auto simp: details_def validateSchema_def schema_validate_def split: prod.splits if_splits)





lemma wf_schemas:
  "wf_schema ratingSchema" "wf_schema productSchema" "wf_schema productSchemaWithoutRating"
  "wf_schema createProductSchema"
  by (simp_all add: ratingSchema_def productSchema_def productSchemaWithoutRating_def
      createProductSchema_def js_def)

lemmas validate_unfold =
  schema_validate_def validate_number_def validate_string_def number_base_def string_base_def
  number_coerce_def MAX_SAFE_INTEGER_def Let_def get_Cons get_Nil




section \<open>The product schemas\<close>

lemma number_base_Inr:
  "number_base pres path v = Inr x \<longleftrightarrow>
     v = JNumber x \<and> \<not> (x > MAX_SAFE_INTEGER \<or> x < - MAX_SAFE_INTEGER)"
  by (auto simp: number_base_def split: jsval.splits jsprim.splits jsnum.splits if_splits)

lemma number_base_required: "number_base Required path v \<noteq> Inl []"
  by (auto simp: number_base_def split: jsval.splits jsprim.splits jsnum.splits if_splits)

lemma string_base_Inr: "string_base pres path v = Inr s \<longleftrightarrow> v = JString s \<and> s \<noteq> []"
  by (auto simp: string_base_def split: jsval.splits jsprim.splits if_splits)

lemma string_base_required: "string_base Required path v \<noteq> Inl []"
  by (auto simp: string_base_def split: jsval.splits jsprim.splits if_splits)

lemma violated_number_empty:
  "violated lib p (JoiNumber rules Required) path v = {} \<longleftrightarrow>
     (\<exists>x. number_coerce lib p v = (JNumber x, None) \<and>
          - MAX_SAFE_INTEGER \<le> x \<and> x \<le> MAX_SAFE_INTEGER \<and>
          list_all (\<lambda>r. number_rule_ok r x) rules)"
proof -
  obtain v' c where n: "number_coerce lib p v = (v', c)" by (cases "number_coerce lib p v")
  show ?thesis
  proof (cases c)
    case (Some code)
    with n show ?thesis by simp
  next
    case None
    have "violated lib p (JoiNumber rules Required) path v = {} \<longleftrightarrow>
          (\<exists>x. number_base Required path v' = Inr x \<and>
               list_all (\<lambda>r. number_rule_ok r x) rules)"
    proof (cases "number_base Required path v'")
      case (Inl errors)
      then have "errors \<noteq> []" using number_base_required by auto
      with Inl n None show ?thesis by simp
    next
      case (Inr x)
      with n None show ?thesis by (auto simp: list_all_iff)
    qed
    with n None show ?thesis by (auto simp: number_base_Inr)
  qed
qed

lemma violated_string_empty:
  "violated lib p (JoiString rules Required) path v = {} \<longleftrightarrow>
     (\<exists>s. v = JString s \<and> s \<noteq> [] \<and> list_all (\<lambda>r. string_rule_ok lib r s) rules)"
proof -
  have "violated lib p (JoiString rules Required) path v = {} \<longleftrightarrow>
        (\<exists>s. string_base Required path v = Inr s \<and>
             list_all (\<lambda>r. string_rule_ok lib r s) rules)"
  proof (cases "string_base Required path v")
    case (Inl errors)
    then have "errors \<noteq> []" using string_base_required by auto
    with Inl show ?thesis by simp
  next
    case (Inr s)
    then show ?thesis by (auto simp: list_all_iff)
  qed
  then show ?thesis by (auto simp: string_base_Inr)
qed

lemma violated_rating_empty:
  "violated lib p ratingSchema path v = {} \<longleftrightarrow>
     v = JUndefined \<or>
     (\<exists>r x n. v = JObj r \<and>
        number_coerce lib p (get r (js ''rate'')) = (JNumber x, None) \<and> 0 \<le> x \<and> x \<le> 5 \<and>
        number_coerce lib p (get r (js ''count'')) = (JNumber n, None) \<and> 0 \<le> n \<and> n \<le> MAX_SAFE_INTEGER \<and>
        of_int \<lfloor>n\<rfloor> = n \<and>
        (allowUnknown p \<or> fst ` set r \<subseteq> {js ''rate'', js ''count''}))"
proof (cases v)
  case (JPrim x)
  then show ?thesis by (cases x) (simp_all add: ratingSchema_def)
next
  case (JArr vs)
  then show ?thesis by (simp add: ratingSchema_def)
next
  case (JObj r)
  have u: "{(path @ [k], ''object.unknown'') | k.
             k \<in> fst ` set r \<and> k \<notin> fst ` set [(js ''rate'', a), (js ''count'', b)] \<and> \<not> allowUnknown p} = {}
           \<longleftrightarrow> (allowUnknown p \<or> fst ` set r \<subseteq> {js ''rate'', js ''count''})" for a b
    by auto
  show ?thesis
    unfolding JObj ratingSchema_def
    apply (simp only: violated.simps(3) violated_keys.simps jsval.case Un_empty u
        violated_number_empty)
    apply (auto simp: MAX_SAFE_INTEGER_def)
    done
qed


lemma unknown_empty:
  "{(path @ [k], ''object.unknown'') | k. k \<in> A \<and> k \<notin> B \<and> \<not> q} = {} \<longleftrightarrow> (q \<or> A \<subseteq> B)"
  by auto

lemma violated_createProductSchema_empty:
  "violated lib p createProductSchema [] (JObj obj) = {} \<longleftrightarrow>
     (\<exists>t. get obj (js ''title'') = JString t \<and> t \<noteq> []) \<and>
     (\<exists>x. number_coerce lib p (get obj (js ''price'')) = (JNumber x, None) \<and> 0 < x \<and> x \<le> MAX_SAFE_INTEGER) \<and>
     (\<exists>d. get obj (js ''description'') = JString d \<and> d \<noteq> []) \<and>
     (\<exists>c. get obj (js ''category'') = JString c \<and> c \<noteq> []) \<and>
     (\<exists>u. get obj (js ''image'') = JString u \<and> u \<noteq> [] \<and> isUri lib u) \<and>
     (allowUnknown p \<or>
      fst ` set obj \<subseteq> {js ''title'', js ''price'', js ''description'', js ''category'', js ''image''})"
  unfolding createProductSchema_def
  apply (simp only: violated.simps(3) violated_keys.simps jsval.case Un_empty unknown_empty
      violated_number_empty violated_string_empty)
  apply (auto simp: MAX_SAFE_INTEGER_def)
  done

lemma violated_productSchema_empty:
  "violated lib p productSchema [] (JObj obj) = {} \<longleftrightarrow>
     (\<exists>i. number_coerce lib p (get obj (js ''id'')) = (JNumber i, None) \<and> of_int \<lfloor>i\<rfloor> = i \<and> 0 < i \<and>
          i \<le> MAX_SAFE_INTEGER) \<and>
     (\<exists>t. get obj (js ''title'') = JString t \<and> t \<noteq> []) \<and>
     (\<exists>x. number_coerce lib p (get obj (js ''price'')) = (JNumber x, None) \<and> 0 < x \<and> x \<le> MAX_SAFE_INTEGER) \<and>
     (\<exists>d. get obj (js ''description'') = JString d \<and> d \<noteq> []) \<and>
     (\<exists>c. get obj (js ''category'') = JString c \<and> c \<noteq> []) \<and>
     (\<exists>u. get obj (js ''image'') = JString u \<and> u \<noteq> [] \<and> isUri lib u) \<and>
     violated lib p ratingSchema [js ''rating''] (get obj (js ''rating'')) = {} \<and>
     (allowUnknown p \<or>
      fst ` set obj \<subseteq> {js ''id'', js ''title'', js ''price'', js ''description'', js ''category'',
                          js ''image'', js ''rating''})"
  unfolding productSchema_def
  apply (simp only: violated.simps(3) violated_keys.simps jsval.case Un_empty unknown_empty
      violated_number_empty violated_string_empty append_Nil)
  apply (auto simp: MAX_SAFE_INTEGER_def)
  done


lemma validateSchema_conforms:
  assumes "wf_schema S"
  shows "error (validateSchema lib data S) = None \<longleftrightarrow>
         violated lib (defaults\<lparr>abortEarly := False\<rparr>) S [] data = {}"
  using details_validateSchema [OF assms, of lib data, symmetric]
  by (simp add: error_validateSchema(1))

lemma assertSchema_passes_iff:
  assumes "wf_schema S"
  shows "assertSchema lib data S = Inr () \<longleftrightarrow> conforms lib S data"
  using validateSchema_conforms [OF assms, of lib data]
  by (auto simp: assertSchema_def conforms_def split: option.splits)

lemma productSchema_rating_checked:
  assumes "error (validateSchema lib (JObj obj) productSchema) = None"
    and "get obj (js ''rating'') \<noteq> JUndefined"
  shows "\<exists>r x n. get obj (js ''rating'') = JObj r \<and>
           number_coerce lib (defaults\<lparr>abortEarly := False\<rparr>) (get r (js ''rate'')) = (JNumber x, None) \<and>
           0 \<le> x \<and> x \<le> 5 \<and>
           number_coerce lib (defaults\<lparr>abortEarly := False\<rparr>) (get r (js ''count'')) = (JNumber n, None) \<and>
           0 \<le> n \<and> of_int \<lfloor>n\<rfloor> = n"
proof -
  from assms(1) have "violated lib (defaults\<lparr>abortEarly := False\<rparr>) productSchema [] (JObj obj) = {}"
    by (simp add: validateSchema_conforms wf_schemas)
  then have "violated lib (defaults\<lparr>abortEarly := False\<rparr>) ratingSchema [js ''rating'']
               (get obj (js ''rating'')) = {}"
    by (simp add: violated_productSchema_empty)
  with assms(2) show ?thesis by (auto simp: violated_rating_empty)
qed

text \<open>
  C1. The claim that the full-product schema rejects every object without a rating fails
  on the code: the key \<open>rating\<close> of \<open>productSchema\<close> is the only one without
  \<open>required()\<close>. The fixture product with an id and no rating is accepted.
\<close>

theorem productSchema_accepts_missing_rating:
  "get ((js ''id'', JNumber 21) # validProduct) (js ''rating'') = JUndefined \<and>
   error (validateSchema fixtureLibrary (JObj ((js ''id'', JNumber 21) # validProduct)) productSchema)
     = None"
  by (simp add: validateSchema_def productSchema_def ratingSchema_def validProduct_def
      validate_unfold defaults_def fixtureLibrary_def fixtureUri_def fixtureUnsafe_def js_def)

text \<open>
  C2, as stated, fails on the code: the creation schema has \<open>price: positive()\<close>, so
  the fixture with price 0 is rejected.
\<close>

theorem createProductSchema_rejects_zero_price:
  "error (validateSchema fixtureLibrary (JObj zeroPriceProduct) createProductSchema)
     = Some [([js ''price''], ''number.positive'')]"
  by (simp add: validateSchema_def createProductSchema_def zeroPriceProduct_def
      validate_unfold defaults_def fixtureLibrary_def fixtureUri_def fixtureUnsafe_def js_def)

lemma number_coerce_number [simp]: "number_coerce lib p (JPrim (PNum n)) = (JPrim (PNum n), None)"
  by (simp add: number_coerce_def)


lemma violated_positive_price:
  assumes "- MAX_SAFE_INTEGER \<le> x" "x \<le> MAX_SAFE_INTEGER" "x \<le> 0"
  shows "violated lib p (JoiNumber [Positive] Required) path (JNumber x) = {(path, ''number.positive'')}"
proof -
  have "number_base Required path (JNumber x) = Inr x"
    using assms by (simp add: number_base_Inr)
  then show ?thesis using assms(3) by auto
qed

text \<open>
  C2, amended. The creation schema accepts every positive price and rejects the price 0:
  for every payload whose keys are among title, price, description, category and image
  (neither id nor rating is required), whose title, description and category are
  non-empty strings, whose image is a non-empty string that passes the URI test and
  whose price is a number \<open>x\<close> of the safe range, \<open>validateSchema\<close> reports no
  violation when \<open>x > 0\<close>, and exactly the violation \<open>number.positive\<close> at
  \<open>price\<close> when \<open>x \<le> 0\<close>.
\<close>

theorem createProductSchema_accepts_positive_price:
  assumes keys: "fst ` set obj \<subseteq> {js ''title'', js ''price'', js ''description'', js ''category'', js ''image''}"
    and title: "get obj (js ''title'') = JString t" "t \<noteq> []"
    and description: "get obj (js ''description'') = JString d" "d \<noteq> []"
    and category: "get obj (js ''category'') = JString c" "c \<noteq> []"
    and image: "get obj (js ''image'') = JString u" "u \<noteq> []" "isUri lib u"
    and price: "get obj (js ''price'') = JNumber x" "- MAX_SAFE_INTEGER \<le> x" "x \<le> MAX_SAFE_INTEGER"
  shows "(0 < x \<longrightarrow> error (validateSchema lib (JObj obj) createProductSchema) = None) \<and>
         (x \<le> 0 \<longrightarrow> (\<exists>ds. error (validateSchema lib (JObj obj) createProductSchema) = Some ds \<and>
                          set ds = {([js ''price''], ''number.positive'')}))"
proof (intro conjI impI)
  assume "0 < x"
  with assms show "error (validateSchema lib (JObj obj) createProductSchema) = None"
    by (simp add: validateSchema_conforms wf_schemas violated_createProductSchema_empty)
next
  assume x: "x \<le> 0"
  let ?p = "defaults\<lparr>abortEarly := False\<rparr>"
  have s: "violated lib ?p (JoiString [] Required) [js ''title''] (get obj (js ''title'')) = {}"
    "violated lib ?p (JoiString [] Required) [js ''description''] (get obj (js ''description'')) = {}"
    "violated lib ?p (JoiString [] Required) [js ''category''] (get obj (js ''category'')) = {}"
    "violated lib ?p (JoiString [Uri] Required) [js ''image''] (get obj (js ''image'')) = {}"
    using title description category image by (simp_all only: violated_string_empty) simp_all
  have n: "violated lib ?p (JoiNumber [Positive] Required) [js ''price''] (get obj (js ''price''))
             = {([js ''price''], ''number.positive'')}"
    using violated_positive_price [OF price(2,3) x] by (simp add: price(1))
  have v: "violated lib ?p createProductSchema [] (JObj obj) = {([js ''price''], ''number.positive'')}"
    unfolding createProductSchema_def
    by (simp only: violated.simps(3) violated_keys.simps jsval.case append_Nil s n)
       (use keys in auto)
  have "set (details (validateSchema lib (JObj obj) createProductSchema))
          = {([js ''price''], ''number.positive'')}"
    using v by (simp add: details_validateSchema wf_schemas)
  then show "\<exists>ds. error (validateSchema lib (JObj obj) createProductSchema) = Some ds \<and>
               set ds = {([js ''price''], ''number.positive'')}"
    by (cases "error (validateSchema lib (JObj obj) createProductSchema)")
       (auto simp: details_def)
qed


theorem createProductSchema_accepts_positive_price_witness:
  "error (validateSchema fixtureLibrary (JObj validProduct) createProductSchema) = None"
proof -
  have k: "fst ` set validProduct
             \<subseteq> {js ''title'', js ''price'', js ''description'', js ''category'', js ''image''}"
    by (simp add: validProduct_def)
  have g: "get validProduct (js ''title'') = JString (js ''Premium Wireless Headphones'')"
    "get validProduct (js ''description'')
       = JString (js ''High-quality wireless headphones with noise cancellation'')"
    "get validProduct (js ''category'') = JString (js ''electronics'')"
    "get validProduct (js ''image'') = JString (js ''https://fakestoreapi.com/img/headphones.jpg'')"
    "get validProduct (js ''price'') = JNumber (29999 / 100)"
    by (simp_all add: validProduct_def get_Cons get_Nil js_def)
  have n: "js ''Premium Wireless Headphones'' \<noteq> []"
    "js ''High-quality wireless headphones with noise cancellation'' \<noteq> []"
    "js ''electronics'' \<noteq> []" "js ''https://fakestoreapi.com/img/headphones.jpg'' \<noteq> []"
    by (simp_all add: js_def)
  have u: "isUri fixtureLibrary (js ''https://fakestoreapi.com/img/headphones.jpg'')"
    by (simp add: fixtureLibrary_def fixtureUri_def fixtureUnsafe_def)
  have x: "- MAX_SAFE_INTEGER \<le> 29999 / 100" "29999 / 100 \<le> MAX_SAFE_INTEGER" "(0::real) < 29999 / 100"
    by (simp_all add: MAX_SAFE_INTEGER_def)
  from createProductSchema_accepts_positive_price
    [where lib = fixtureLibrary, OF k g(1) n(1) g(2) n(2) g(3) n(3) g(4) n(4) u g(5) x(1) x(2)] x(3)
  show ?thesis by blast
qed

section \<open>Numeric strings are converted\<close>







lemma number_coerce_undefined_eq [simp]: "number_coerce lib p JUndefined = (JUndefined, None)"
  by (simp add: number_coerce_def)




















end
